theory Spec2Isabelle
  imports
    Main
    "HOL-Library.Sublist"
    "HOL-Library.Multiset"
    "HOL-Library.Char_ord"
    "HOL-Library.List_Lexorder"
    "HOL-Library.Product_Lexorder"
    "HOL-Library.Word"
begin

section \<open>The Landmark photo pipeline (src/landmark\_pipeline.py)\<close>

text \<open>
  A shallow embedding of the pure parts of the pipeline and of the control flow of
  \<open>main\<close>. Python strings are modelled as \<^typ>\<open>string\<close>; the case conversions and the
  white-space test act on the 7-bit characters, every other character is left alone.
  Strings and tuples are compared as Python compares them: lexicographically, characters
  by code.
\<close>

subsection \<open>Python string methods\<close>

definition is_upper :: "char \<Rightarrow> bool" where
  "is_upper c \<longleftrightarrow> CHR ''A'' \<le> c \<and> c \<le> CHR ''Z''"

definition is_lower :: "char \<Rightarrow> bool" where
  "is_lower c \<longleftrightarrow> CHR ''a'' \<le> c \<and> c \<le> CHR ''z''"

definition is_cased :: "char \<Rightarrow> bool" where
  "is_cased c \<longleftrightarrow> is_upper c \<or> is_lower c"

definition lower_char :: "char \<Rightarrow> char" where
  "lower_char c = (if is_upper c then char_of (of_char c + (32::nat)) else c)"

definition upper_char :: "char \<Rightarrow> char" where
  "upper_char c = (if is_lower c then char_of (of_char c - (32::nat)) else c)"

text \<open>\<open>str.lower()\<close>, exact on ASCII text.\<close>

definition py_lower :: "string \<Rightarrow> string" where
  "py_lower s = map lower_char s"

text \<open>
  \<open>str.isspace()\<close> on one character, exact on ASCII text: TAB, LF, VT, FF, CR, FS, GS, RS,
  US and the blank.
\<close>

definition is_space :: "char \<Rightarrow> bool" where
  "is_space c \<longleftrightarrow>
     (let n = (of_char c :: nat) in (9 \<le> n \<and> n \<le> 13) \<or> (28 \<le> n \<and> n \<le> 32))"

text \<open>\<open>str.strip()\<close>\<close>

definition py_strip :: "string \<Rightarrow> string" where
  "py_strip s = rev (dropWhile is_space (rev (dropWhile is_space s)))"

text \<open>
  \<open>str.title()\<close>, exact on ASCII text: a character that follows a cased character is
  lower-cased, every other character is upper-cased.
\<close>

fun title_from :: "bool \<Rightarrow> string \<Rightarrow> string" where
  "title_from previous_is_cased [] = []"
| "title_from previous_is_cased (c # cs) =
     (if previous_is_cased then lower_char c else upper_char c) # title_from (is_cased c) cs"

definition py_title :: "string \<Rightarrow> string" where
  "py_title s = title_from False s"

definition py_endswith :: "string \<Rightarrow> string \<Rightarrow> bool" where
  "py_endswith s suf \<longleftrightarrow> suffix suf s"

definition py_startswith :: "string \<Rightarrow> string \<Rightarrow> bool" where
  "py_startswith s pre \<longleftrightarrow> prefix pre s"

text \<open>\<open>str.rfind(c)\<close> for a single character: the last index of \<open>c\<close>, or \<open>-1\<close>.\<close>

definition rfind :: "string \<Rightarrow> char \<Rightarrow> int" where
  "rfind s c =
     (if c \<in> set s then int (length s) - 1 - int (length (takeWhile (\<lambda>d. d \<noteq> c) (rev s)))
      else - 1)"

text \<open>\<open>re.sub(r"[_\-]+", " ", s)\<close>: every maximal run of underscores and hyphens becomes one blank.\<close>

definition is_sep :: "char \<Rightarrow> bool" where
  "is_sep c \<longleftrightarrow> c = CHR ''_'' \<or> c = CHR ''-''"

fun sub_from :: "bool \<Rightarrow> string \<Rightarrow> string" where
  "sub_from in_run [] = []"
| "sub_from in_run (c # cs) =
     (if is_sep c then (if in_run then sub_from True cs else CHR '' '' # sub_from True cs)
      else c # sub_from False cs)"

definition re_sub_seps :: "string \<Rightarrow> string" where
  "re_sub_seps s = sub_from False s"

subsection \<open>\<open>os.path\<close> (POSIX)\<close>

text \<open>\<open>os.path.basename(p)\<close>: \<open>p[p.rfind('/') + 1:]\<close>.\<close>

definition basename :: "string \<Rightarrow> string" where
  "basename p = drop (nat (rfind p CHR ''/'' + 1)) p"

text \<open>
  \<open>os.path.splitext(p)\<close>: split at the last dot when it comes after the last separator and
  some character between them is not a dot.
\<close>

definition splitext :: "string \<Rightarrow> string \<times> string" where
  "splitext p =
     (let sepIndex = rfind p CHR ''/''; dotIndex = rfind p CHR ''.''
      in if dotIndex > sepIndex \<and>
            list_ex (\<lambda>d. d \<noteq> CHR ''.'') (drop (nat (sepIndex + 1)) (take (nat dotIndex) p))
         then (take (nat dotIndex) p, drop (nat dotIndex) p)
         else (p, []))"

text \<open>\<open>os.path.join(d, f)\<close>\<close>

definition path_join :: "string \<Rightarrow> string \<Rightarrow> string" where
  "path_join a b =
     (if py_startswith b ''/'' then b
      else if a = [] \<or> py_endswith a ''/'' then a @ b
      else a @ ''/'' @ b)"

subsection \<open>Keyword rank and captions\<close>

text \<open>The local table \<open>order\<close> of \<open>keyword_rank\<close>.\<close>

definition order_table :: "(string \<times> int) list" where
  "order_table =
     [(''exterior'', 0), (''front'', 1), (''aerial'', 1), (''living'', 2),
      (''fireplace'', 3), (''kitchen'', 4), (''dining'', 5),
      (''bedroom'', 6), (''bath'', 7), (''deck'', 8), (''dock'', 9),
      (''lake'', 10), (''twilight'', 11), (''local'', 12)]"

text \<open>The loop \<open>for k, r in order: if k in n: rank = min(rank, r)\<close>.\<close>

fun rank_loop :: "string \<Rightarrow> (string \<times> int) list \<Rightarrow> int \<Rightarrow> int" where
  "rank_loop n [] rank = rank"
| "rank_loop n ((k, r) # rest) rank =
     rank_loop n rest (if sublist k n then min rank r else rank)"

definition keyword_rank :: "string \<Rightarrow> int" where
  "keyword_rank name = rank_loop (py_lower name) order_table 50"

text \<open>The priorities of the table entries whose keyword occurs in \<open>n\<close>, in table order.\<close>

definition matching_priorities :: "string \<Rightarrow> int list" where
  "matching_priorities n = map snd (filter (\<lambda>kr. sublist (fst kr) n) order_table)"

definition slug_to_caption :: "string \<Rightarrow> string" where
  "slug_to_caption name =
     (let base = fst (splitext (basename name));
          cap = py_title (py_strip (re_sub_seps base))
      in if \<not> py_endswith cap ''.'' then cap @ ''.'' else cap)"

subsection \<open>Caption table\<close>

datatype py_error =
    SystemExit string
  | ZeroDivisionError
  | AttributeError
  | ValueError string
  | OSError string

text \<open>
  A row of \<open>csv.DictReader\<close>: a dictionary from the column names of the header to the
  fields of the row; a field that a short row lacks is Python's \<open>None\<close>.
\<close>

type_synonym csv_row = "string \<rightharpoonup> string option"

text \<open>\<open>row.get(key, "")\<close>: the default only replaces a missing key, not a \<open>None\<close> value.\<close>

definition row_get :: "csv_row \<Rightarrow> string \<Rightarrow> string option" where
  "row_get row key = (case row key of None \<Rightarrow> Some [] | Some v \<Rightarrow> v)"

text \<open>
  The loop of \<open>load_captions_csv\<close> over the rows of the file; \<open>.strip()\<close> on \<open>None\<close>
  raises \<open>AttributeError\<close>.
\<close>

fun load_rows :: "csv_row list \<Rightarrow> (string \<rightharpoonup> string) \<Rightarrow> py_error + (string \<rightharpoonup> string)" where
  "load_rows [] caps = Inr caps"
| "load_rows (row # rows) caps =
     (case row_get row ''filename'' of
        None \<Rightarrow> Inl AttributeError
      | Some f \<Rightarrow>
          (case row_get row ''caption'' of
             None \<Rightarrow> Inl AttributeError
           | Some c \<Rightarrow>
               (let fn = py_strip f; tx = py_strip c
                in load_rows rows (if fn \<noteq> [] \<and> tx \<noteq> [] then caps(fn \<mapsto> tx) else caps))))"

definition load_captions_csv :: "csv_row list \<Rightarrow> py_error + (string \<rightharpoonup> string)" where
  "load_captions_csv rows = load_rows rows Map.empty"

text \<open>\<open>caps.get(base, slug_to_caption(base))\<close> in the loop of \<open>main\<close>.\<close>

definition resolve_caption :: "(string \<rightharpoonup> string) \<Rightarrow> string \<Rightarrow> string" where
  "resolve_caption caps base = (case caps base of Some tx \<Rightarrow> tx | None \<Rightarrow> slug_to_caption base)"

subsection \<open>Ordering\<close>

text \<open>The key \<open>lambda x: (keyword_rank(x), os.path.basename(x))\<close> of both sorts in \<open>main\<close>.\<close>

definition photo_key :: "string \<Rightarrow> int \<times> string" where
  "photo_key x = (keyword_rank x, basename x)"

text \<open>The \<open>else\<close> branch: \<open>srcs.sort(key=...)\<close>; Python's sort is stable, as \<^const>\<open>sort_key\<close> is.\<close>

definition default_order :: "string list \<Rightarrow> string list" where
  "default_order srcs = sort_key photo_key srcs"

text \<open>\<open>names = [ln.strip() for ln in f if ln.strip()]\<close>\<close>

definition order_names :: "string list \<Rightarrow> string list" where
  "order_names lns = map py_strip (filter (\<lambda>ln. py_strip ln \<noteq> []) lns)"

text \<open>The branch taken with an order file.\<close>

definition explicit_order :: "string list \<Rightarrow> string list \<Rightarrow> string list" where
  "explicit_order names srcs =
     (let ordered = concat (map (\<lambda>name. filter (\<lambda>s. basename s = name) srcs) names);
          remaining = filter (\<lambda>s. s \<notin> set ordered) srcs
      in ordered @ sort_key photo_key remaining)"

subsection \<open>Images\<close>

text \<open>
  An image is modelled by what the pipeline's arithmetic reads: its size, its mode and the
  EXIF orientation tag (0 when absent). Pixel data are not modelled. The library calls are
  modelled by their contract: \<open>convert\<close> changes the mode only, \<open>resize\<close> returns an image of
  the requested size and raises \<open>ValueError\<close> when a requested side is below 1,
  \<open>alpha_composite\<close> draws onto the base image in place and leaves its size and mode alone.
\<close>

record image =
  width :: nat
  height :: nat
  mode :: string
  orientation :: nat

definition convert :: "image \<Rightarrow> string \<Rightarrow> image" where
  "convert im m = im\<lparr>mode := m\<rparr>"

definition pil_resize :: "image \<Rightarrow> int \<times> int \<Rightarrow> py_error + image" where
  "pil_resize im sz =
     (if fst sz < 1 \<or> snd sz < 1 then Inl (ValueError ''height and width must be > 0'')
      else Inr (im\<lparr>width := nat (fst sz), height := nat (snd sz)\<rparr>))"

definition alpha_composite :: "image \<Rightarrow> image \<Rightarrow> int \<times> int \<Rightarrow> image" where
  "alpha_composite base lg dest = base"

text \<open>
  \<open>ImageOps.exif_transpose\<close>: orientations 5 to 8 are the transpositions and quarter turns,
  which exchange width and height; the tag is removed.
\<close>

definition exif_transpose :: "image \<Rightarrow> image" where
  "exif_transpose im =
     (if orientation im \<in> {5, 6, 7, 8}
      then im\<lparr>width := height im, height := width im, orientation := 0\<rparr>
      else im\<lparr>orientation := 0\<rparr>)"

text \<open>
  \<open>int(a / b)\<close> for integers \<open>a\<close> and \<open>b\<close>: true division, then truncation towards zero.
  The quotient is taken exactly, as the floating-point quotient is for the sizes of images.
\<close>

definition int_quot :: "int \<Rightarrow> int \<Rightarrow> py_error + int" where
  "int_quot a b =
     (if b = 0 then Inl ZeroDivisionError
      else Inr (sgn a * sgn b * (\<bar>a\<bar> div \<bar>b\<bar>)))"

text \<open>
  What the library and the floating-point unit compute and the source does not:
  \<open>im.thumbnail(size)\<close>, the JPEG encoder of \<open>im.save(buf, format="JPEG", quality=q)\<close>, and
  the product \<open>int(lg.height * (target_w / lg.width))\<close> of \<open>apply_logo_watermark\<close>.
\<close>

type_synonym byte = "8 word"

record lib =
  thumbnail :: "image \<Rightarrow> nat \<times> nat \<Rightarrow> py_error + image"
  save_jpeg :: "image \<Rightarrow> nat \<Rightarrow> py_error + byte list"
  scaled_height :: "nat \<Rightarrow> int \<Rightarrow> nat \<Rightarrow> int"

text \<open>
  \<open>apply_logo_watermark(im, logo, opacity)\<close>. \<open>int(base.width * 0.10)\<close> and
  \<open>int(base.width * 0.02)\<close> are the width divided by 10 and by 50, rounded down. The opacity
  only scales the alpha channel of the logo.
\<close>

definition apply_logo_watermark :: "lib \<Rightarrow> image \<Rightarrow> image \<Rightarrow> py_error + image" where
  "apply_logo_watermark L im logo =
     (let base = convert im ''RGBA'';
          lg = convert logo ''RGBA'';
          target_w = int (width base) div 10
      in if width lg = 0 then Inl ZeroDivisionError
         else
           (case pil_resize lg (target_w, scaled_height L (height lg) target_w (width lg)) of
              Inl e \<Rightarrow> Inl e
            | Inr lg' \<Rightarrow>
                (let x = int (width base) - int (width lg') - int (width base) div 50;
                     y = int (height base) - int (height lg') - int (height base) div 50
                 in Inr (convert (alpha_composite base lg' (x, y)) ''RGB''))))"

text \<open>\<open>resize_for_web(im, max_side=2560)\<close>\<close>

definition default_max_side :: int where
  "default_max_side = 2560"

definition resize_for_web :: "image \<Rightarrow> int \<Rightarrow> py_error + image" where
  "resize_for_web im max_side =
     (let w = int (width im); h = int (height im)
      in if max w h \<le> max_side then Inr im
         else if w > h then
           (case int_quot (h * max_side) w of
              Inl e \<Rightarrow> Inl e
            | Inr new_h \<Rightarrow> pil_resize im (max_side, new_h))
         else
           (case int_quot (w * max_side) h of
              Inl e \<Rightarrow> Inl e
            | Inr new_w \<Rightarrow> pil_resize im (new_w, max_side)))"

subsection \<open>Discovery\<close>

definition IMG_EXTS :: "string list" where
  "IMG_EXTS = [''.jpg'', ''.jpeg'', ''.png'', ''.webp'']"

text \<open>The test of \<open>collect_images\<close> on a file name.\<close>

definition is_image_name :: "string \<Rightarrow> bool" where
  "is_image_name f \<longleftrightarrow>
     list_ex (\<lambda>ext. py_endswith (py_lower f) ext) IMG_EXTS \<and> \<not> py_startswith f ''._''"

text \<open>
  \<open>collect_images\<close> on what \<open>os.walk(root)\<close> yields: the directories with their file names.
\<close>

definition collect_images :: "(string \<times> string list) list \<Rightarrow> string list" where
  "collect_images walked =
     sort (concat (map (\<lambda>(d, files). map (path_join d) (filter is_image_name files)) walked))"

subsection \<open>Embedding and the rows of the documents\<close>

definition b64_alphabet :: string where
  "b64_alphabet = ''ABCDEFGHIJKLMNOPQRSTUVWXYZabcdefghijklmnopqrstuvwxyz0123456789+/''"

definition b64_char :: "nat \<Rightarrow> char" where
  "b64_char n = b64_alphabet ! (n mod 64)"

text \<open>\<open>base64.b64encode(buf).decode("utf-8")\<close>\<close>

fun b64encode :: "byte list \<Rightarrow> string" where
  "b64encode [] = []"
| "b64encode [a] =
     [b64_char (unat a div 4), b64_char (unat a mod 4 * 16), CHR ''='', CHR ''='']"
| "b64encode [a, b] =
     [b64_char (unat a div 4), b64_char (unat a mod 4 * 16 + unat b div 16),
      b64_char (unat b mod 16 * 4), CHR ''='']"
| "b64encode (a # b # c # rest) =
     [b64_char (unat a div 4), b64_char (unat a mod 4 * 16 + unat b div 16),
      b64_char (unat b mod 16 * 4 + unat c div 64), b64_char (unat c mod 64)] @ b64encode rest"

text \<open>
  The body of the \<open>try\<close> of \<open>embed_b64\<close>: open the image, shrink it into the square of side
  \<open>width\<close>, encode it as JPEG of quality 80, and encode the bytes in base 64. The first
  argument opens an image file.
\<close>

definition embed_b64_try ::
  "lib \<Rightarrow> (string \<Rightarrow> py_error + image) \<Rightarrow> string \<Rightarrow> nat \<Rightarrow> py_error + string" where
  "embed_b64_try L opener path w =
     (case opener path of
        Inl e \<Rightarrow> Inl e
      | Inr im \<Rightarrow>
          (case thumbnail L im (w, w) of
             Inl e \<Rightarrow> Inl e
           | Inr t \<Rightarrow>
               (case save_jpeg L t 80 of
                  Inl e \<Rightarrow> Inl e
                | Inr buf \<Rightarrow> Inr (b64encode buf))))"

text \<open>\<open>embed_b64(path, width=150)\<close>: the bare \<open>except\<close> turns every exception into \<open>""\<close>.\<close>

definition embed_b64 :: "lib \<Rightarrow> (string \<Rightarrow> py_error + image) \<Rightarrow> string \<Rightarrow> nat \<Rightarrow> string" where
  "embed_b64 L opener path w =
     (case embed_b64_try L opener path w of Inl e \<Rightarrow> [] | Inr s \<Rightarrow> s)"

text \<open>\<open>str(i)\<close> and \<open>f"{i:02d}"\<close> for the sequence index.\<close>

fun str_nat :: "nat \<Rightarrow> string" where
  "str_nat n =
     (if n < 10 then [char_of (48 + n)] else str_nat (n div 10) @ [char_of (48 + n mod 10)])"

declare str_nat.simps [simp del]

definition pad2 :: "nat \<Rightarrow> string" where
  "pad2 i = (if i < 10 then ''0'' @ str_nat i else str_nat i)"

text \<open>A row \<open>(i, thumb, room, caption)\<close>.\<close>

type_synonym row = "nat \<times> string \<times> string \<times> string"

text \<open>The body of the loop of \<open>make_html\<close>: the markup of one table row.\<close>

definition html_row :: "lib \<Rightarrow> (string \<Rightarrow> py_error + image) \<Rightarrow> row \<Rightarrow> string" where
  \<open>html_row L opener r =
     (case r of (i, thumb, room, caption) \<Rightarrow>
        (let data_uri = embed_b64 L opener thumb 150;
             img_tag = (if data_uri \<noteq> []
                        then ''<img class="thumb" src="data:image/jpeg;base64,'' @ data_uri @ ''"/>''
                        else [])
         in ''<tr><td>'' @ str_nat i @ ''</td><td>'' @ img_tag @ ''</td><td>'' @ room @
            ''</td><td>'' @ caption @ ''</td></tr>''))\<close>

text \<open>The logo of the header of \<open>make_html\<close>.\<close>

definition header_logo_tag :: "lib \<Rightarrow> (string \<Rightarrow> py_error + image) \<Rightarrow> string \<Rightarrow> string" where
  \<open>header_logo_tag L opener logo_path =
     (let logo64 = embed_b64 L opener logo_path 200
      in if logo64 \<noteq> [] then ''<img src="data:image/jpeg;base64,'' @ logo64 @ ''" height="40"/>''
         else [])\<close>

text \<open>The body of the loop of \<open>make_list_html\<close>: one item of the list.\<close>

definition list_item :: "lib \<Rightarrow> (string \<Rightarrow> py_error + image) \<Rightarrow> row \<Rightarrow> string" where
  \<open>list_item L opener r =
     (case r of (i, thumb, room, caption) \<Rightarrow>
        (let data_uri = embed_b64 L opener thumb 150;
             img_tag = (if data_uri \<noteq> []
                        then ''<img src="data:image/jpeg;base64,'' @ data_uri @
                             ''" style="width:140px;height:auto;border:1px solid #e5e7eb"/>''
                        else [])
         in ''<li><div style='display:flex;gap:10px;align-items:flex-start'><div>'' @ img_tag @
            ''</div><div><strong>'' @ str_nat i @ ''. '' @ room @ ''</strong><br>'' @ caption @
            ''</div></div></li>''))\<close>

subsection \<open>The run of \<open>main\<close>\<close>

text \<open>
  What a run does to the outside: the directories it makes, the archive it extracts, the
  images and documents it writes, the line it prints. A table document is recorded by its
  path, the logo tag of its header and the markup of its rows, a list document by its path
  and its items, the PDF by its path and its rows; the fixed markup around them is not
  spelled out.
\<close>

datatype effect =
    MakeDirs string
  | ExtractAll string string
  | SaveImage string image nat
  | BuildPdf string "row list"
  | WriteTable string string "string list"
  | WriteList string "string list"
  | Print string

text \<open>The effects that put an image or a document into the output directory.\<close>

fun is_output :: "effect \<Rightarrow> bool" where
  "is_output (SaveImage p im q) = True"
| "is_output (BuildPdf p rows) = True"
| "is_output (WriteTable p logo rows) = True"
| "is_output (WriteList p items) = True"
| "is_output e = False"

text \<open>
  The outside of a run: which effect fails and with what, what \<open>os.walk\<close> yields on the
  extracted tree, which paths exist, the lines of a text file, the rows of a CSV file, and
  the image in an image file.
\<close>

record world =
  io_fail :: "effect \<Rightarrow> py_error option"
  walk :: "string \<Rightarrow> (string \<times> string list) list"
  path_exists :: "string \<Rightarrow> bool"
  read_lines :: "string \<Rightarrow> py_error + string list"
  read_csv :: "string \<Rightarrow> py_error + csv_row list"
  open_image :: "string \<Rightarrow> py_error + image"

record args =
  zip_path :: string
  logo_path :: string
  property_name :: string
  brand_name :: string
  brand_email :: string
  brand_phone :: string
  brand_site :: string
  outdir :: string
  order_file :: "string option"
  captions_csv :: "string option"
  max_web_width :: int

text \<open>
  A step of the run takes the effects so far and returns them extended, with a value or
  the exception that ends the run.
\<close>

type_synonym 'a prog = "effect list \<Rightarrow> effect list \<times> (py_error + 'a)"

definition ret :: "'a \<Rightarrow> 'a prog" where
  "ret x log = (log, Inr x)"

definition throw :: "py_error \<Rightarrow> 'a prog" where
  "throw e log = (log, Inl e)"

definition lift :: "py_error + 'a \<Rightarrow> 'a prog" where
  "lift r log = (log, r)"

definition and_then :: "'a prog \<Rightarrow> ('a \<Rightarrow> 'b prog) \<Rightarrow> 'b prog" where
  "and_then m f log =
     (case m log of (log', Inl e) \<Rightarrow> (log', Inl e) | (log', Inr x) \<Rightarrow> f x log')"

definition emit :: "world \<Rightarrow> effect \<Rightarrow> unit prog" where
  "emit W e log =
     (case io_fail W e of Some err \<Rightarrow> (log, Inl err) | None \<Rightarrow> (log @ [e], Inr ()))"

definition get_log :: "effect list prog" where
  "get_log log = (log, Inr log)"

text \<open>An image file as the run has left it: the last image saved there, else the file of the outside.\<close>

fun saved_image :: "effect list \<Rightarrow> string \<Rightarrow> image option" where
  "saved_image [] p = None"
| "saved_image (e # es) p =
     (case saved_image es p of
        Some im \<Rightarrow> Some im
      | None \<Rightarrow> (case e of SaveImage q im quality \<Rightarrow> if q = p then Some im else None | _ \<Rightarrow> None))"

definition image_at :: "world \<Rightarrow> effect list \<Rightarrow> string \<Rightarrow> py_error + image" where
  "image_at W log p = (case saved_image log p of Some im \<Rightarrow> Inr im | None \<Rightarrow> open_image W p)"

text \<open>\<open>if args.order_file and os.path.exists(args.order_file): ... else: ...\<close>\<close>

definition choose_order :: "world \<Rightarrow> args \<Rightarrow> string list \<Rightarrow> string list prog" where
  "choose_order W a srcs =
     (case order_file a of
        None \<Rightarrow> ret (default_order srcs)
      | Some p \<Rightarrow>
          if p \<noteq> [] \<and> path_exists W p
          then and_then (lift (read_lines W p)) (\<lambda>lns. ret (explicit_order (order_names lns) srcs))
          else ret (default_order srcs))"

text \<open>\<open>caps = load_captions_csv(...) if args.captions_csv and os.path.exists(...) else {}\<close>\<close>

definition choose_captions :: "world \<Rightarrow> args \<Rightarrow> (string \<rightharpoonup> string) prog" where
  "choose_captions W a =
     (case captions_csv a of
        None \<Rightarrow> ret Map.empty
      | Some p \<Rightarrow>
          if p \<noteq> [] \<and> path_exists W p
          then and_then (lift (read_csv W p)) (\<lambda>rows. lift (load_captions_csv rows))
          else ret Map.empty)"

text \<open>The body of the loop over the ordered images.\<close>

definition process_image ::
  "lib \<Rightarrow> world \<Rightarrow> args \<Rightarrow> (string \<rightharpoonup> string) \<Rightarrow> image \<Rightarrow> nat \<Rightarrow> string \<Rightarrow> row prog" where
  "process_image L W a caps logo i src =
     (let work = outdir a;
          full_dir = path_join work ''photos_full_res_watermarked'';
          web_dir = path_join work ''photos_web_optimized_watermarked'';
          thumbs_dir = path_join work ''thumbnails'';
          base = basename src;
          caption = resolve_caption caps base;
          room = py_title (py_strip (re_sub_seps (fst (splitext base))));
          new_name = pad2 i @ ''_'' @ base;
          thumb_path = path_join thumbs_dir (''thumb_'' @ pad2 i @ ''.jpg'')
      in and_then (lift (open_image W src)) (\<lambda>im0.
         and_then (lift (apply_logo_watermark L (exif_transpose im0) logo)) (\<lambda>wm.
         and_then (emit W (SaveImage (path_join full_dir new_name) wm 95)) (\<lambda>u1.
         and_then (lift (resize_for_web wm (max_web_width a))) (\<lambda>web.
         and_then (emit W (SaveImage (path_join web_dir new_name) web 85)) (\<lambda>u2.
         and_then (lift (thumbnail L wm (600, 400))) (\<lambda>t.
         and_then (emit W (SaveImage thumb_path t 85)) (\<lambda>u3.
         ret (i, thumb_path, room, caption)))))))))"

text \<open>\<open>for i, src in enumerate(srcs, start=1): ...; rows.append(...)\<close>\<close>

fun process_images ::
  "lib \<Rightarrow> world \<Rightarrow> args \<Rightarrow> (string \<rightharpoonup> string) \<Rightarrow> image \<Rightarrow> nat \<Rightarrow> string list \<Rightarrow> row list prog" where
  "process_images L W a caps logo i [] = ret []"
| "process_images L W a caps logo i (src # rest) =
     and_then (process_image L W a caps logo i src) (\<lambda>r.
     and_then (process_images L W a caps logo (Suc i) rest) (\<lambda>rows.
     ret (r # rows)))"

text \<open>\<open>brand['property'].replace(' ', '_')\<close>\<close>

definition underscored :: "string \<Rightarrow> string" where
  "underscored s = map (\<lambda>c. if c = CHR '' '' then CHR ''_'' else c) s"

text \<open>The three documents and the closing line, after the loop.\<close>

definition render_documents :: "lib \<Rightarrow> world \<Rightarrow> args \<Rightarrow> row list \<Rightarrow> unit prog" where
  "render_documents L W a rows =
     (let work = outdir a;
          pdf = path_join work (underscored (property_name a) @ ''_Photo_Order_Branded.pdf'');
          html = path_join work (underscored (property_name a) @ ''_Photo_Order_Branded.html'');
          lst = path_join work (underscored (property_name a) @ ''_Clean_Captions_List.html'')
      in and_then (emit W (BuildPdf pdf rows)) (\<lambda>u1.
         and_then get_log (\<lambda>log1.
         and_then (emit W (WriteTable html (header_logo_tag L (image_at W log1) (logo_path a))
                             (map (html_row L (image_at W log1)) rows))) (\<lambda>u2.
         and_then get_log (\<lambda>log2.
         and_then (emit W (WriteList lst (map (list_item L (image_at W log2)) rows))) (\<lambda>u3.
         emit W (Print ([CHR 0xE2, CHR 0x9C, CHR 0x85] @ '' Done. Outputs in: '' @ work))))))))"

text \<open>\<open>main\<close>, after the arguments are parsed.\<close>

definition main_prog :: "lib \<Rightarrow> world \<Rightarrow> args \<Rightarrow> unit prog" where
  "main_prog L W a =
     (let work = outdir a;
          extract_dir = path_join work ''extracted''
      in and_then (emit W (MakeDirs work)) (\<lambda>u1.
         and_then (emit W (ExtractAll (zip_path a) extract_dir)) (\<lambda>u2.
         (let srcs = collect_images (walk W extract_dir)
          in if srcs = [] then throw (SystemExit ''No images found in ZIP'')
             else
               and_then (choose_order W a srcs) (\<lambda>ordered.
               and_then (choose_captions W a) (\<lambda>caps.
               and_then (lift (open_image W (logo_path a))) (\<lambda>logo.
               and_then (emit W (MakeDirs (path_join work ''photos_full_res_watermarked''))) (\<lambda>u3.
               and_then (emit W (MakeDirs (path_join work ''photos_web_optimized_watermarked''))) (\<lambda>u4.
               and_then (emit W (MakeDirs (path_join work ''thumbnails''))) (\<lambda>u5.
               and_then (process_images L W a caps logo 1 ordered) (\<lambda>rows.
               render_documents L W a rows)))))))))))"

definition main :: "lib \<Rightarrow> world \<Rightarrow> args \<Rightarrow> effect list \<times> (py_error + unit)" where
  "main L W a = main_prog L W a []"

text \<open>
  How the interpreter ends the process: status 0 after a normal return; an uncaught
  exception gives status 1, and \<open>SystemExit\<close> with a text prints the text on the error
  stream.
\<close>

definition exit_status :: "py_error + unit \<Rightarrow> int" where
  "exit_status r = (case r of Inr u \<Rightarrow> 0 | Inl e \<Rightarrow> 1)"

definition exit_message :: "py_error + unit \<Rightarrow> string option" where
  "exit_message r = (case r of Inl (SystemExit msg) \<Rightarrow> Some msg | _ \<Rightarrow> None)"

subsection \<open>An example run\<close>

text \<open>
  A library, an outside and arguments on which the definitions can be evaluated: the walk
  of the extracted tree is a parameter, no optional file exists, and every image file but
  one holds a 5000 x 3000 picture.
\<close>

definition example_lib :: lib where
  "example_lib =
     \<lparr>thumbnail = (\<lambda>im sz. Inr (im\<lparr>width := min (width im) (fst sz), height := min (height im) (snd sz)\<rparr>)),
      save_jpeg = (\<lambda>im q. Inr [0xFF, 0xD8, 0xFF, 0xD9]),
      scaled_height = (\<lambda>h t w. int h * t div int w)\<rparr>"

definition example_world :: "(string \<times> string list) list \<Rightarrow> world" where
  "example_world walked =
     \<lparr>io_fail = (\<lambda>e. None),
      walk = (\<lambda>root. walked),
      path_exists = (\<lambda>p. False),
      read_lines = (\<lambda>p. Inl (OSError ''No such file or directory'')),
      read_csv = (\<lambda>p. Inl (OSError ''No such file or directory'')),
      open_image = (\<lambda>p. if p = ''notes.txt'' then Inl (OSError ''cannot identify image file'')
                         else Inr \<lparr>width = 5000, height = 3000, mode = ''RGB'', orientation = 1\<rparr>)\<rparr>"

definition example_args :: args where
  "example_args =
     \<lparr>zip_path = ''input/photos.zip'', logo_path = ''input/logo.jpeg'',
      property_name = ''The Landmark'', brand_name = ''Red Canoe Lodging'',
      brand_email = ''info@redcanoelodging.com'', brand_phone = ''715-351-9687'',
      brand_site = ''redcanoelodging.com'', outdir = ''output/landmark'',
      order_file = None, captions_csv = None, max_web_width = 2560\<rparr>"

text \<open>The same outside with a caption file \<open>captions.csv\<close> that holds the given rows.\<close>

definition example_world_csv :: "(string \<times> string list) list \<Rightarrow> csv_row list \<Rightarrow> world" where
  "example_world_csv walked rows =
     (example_world walked)\<lparr>path_exists := (\<lambda>p. p = ''captions.csv''), read_csv := (\<lambda>p. Inr rows)\<rparr>"

section \<open>Properties\<close>

subsection \<open>Keyword rank\<close>

lemma rank_loop_le: "rank_loop n tbl r \<le> r"
  by (induction n tbl r rule: rank_loop.induct) (auto simp: min_def split: if_splits)

lemma rank_loop_ge:
  "list_all (\<lambda>kr. lo \<le> snd kr) tbl \<Longrightarrow> lo \<le> r \<Longrightarrow> lo \<le> rank_loop n tbl r"
  by (induction n tbl r rule: rank_loop.induct) auto

lemma Min_insert_min:
  fixes a b :: int
  assumes "finite S"
  shows "Min (insert (min a b) S) = Min (insert a (insert b S))"
proof (cases "S = {}")
  case True
  then show ?thesis by simp
next
  case False
  then show ?thesis using assms by (simp add: min.assoc)
qed

lemma rank_loop_Min:
  "rank_loop n tbl r0 = Min (insert r0 (set (map snd (filter (\<lambda>kr. sublist (fst kr) n) tbl))))"
proof (induction n tbl r0 rule: rank_loop.induct)
  case (1 n rank)
  then show ?case by simp
next
  case (2 n k r rest rank)
  show ?case
  proof (cases "sublist k n")
    case True
    let ?S = "set (map snd (filter (\<lambda>kr. sublist (fst kr) n) rest))"
    have "rank_loop n ((k, r) # rest) rank = Min (insert (min rank r) ?S)"
      using 2 True by simp
    also have "\<dots> = Min (insert rank (insert r ?S))"
      by (rule Min_insert_min) simp
    finally show ?thesis using True by simp
  next
    case False
    then show ?thesis using 2 by simp
  qed
qed


lemma matching_priorities_lt: "r \<in> set (matching_priorities n) \<Longrightarrow> r < 50"
proof -
  assume "r \<in> set (matching_priorities n)"
  then have "r \<in> snd ` set order_table" by (auto simp: matching_priorities_def)
  moreover have "\<forall>r \<in> snd ` set order_table. r < 50" by (simp add: order_table_def)
  ultimately show ?thesis by blast
qed

text \<open>
  Claim C2, as amended. The key of the default ordering of a discovered image is the pair
  of the keyword rank of its discovered path and its base name. The rank lower-cases the
  path, directories included: it is the least priority among the entries of the table whose
  keyword occurs in the path, and 50 when none does.
\<close>

theorem keyword_rank_sort_key:
  "photo_key x = (keyword_rank x, basename x) \<and>
   default_order srcs = sort_key (\<lambda>x. (keyword_rank x, basename x)) srcs \<and>
   keyword_rank x =
     (if matching_priorities (py_lower x) = [] then 50 else Min (set (matching_priorities (py_lower x))))"
proof -
  let ?ms = "matching_priorities (py_lower x)"
  have r: "keyword_rank x = Min (insert 50 (set ?ms))"
    by (simp add: keyword_rank_def matching_priorities_def rank_loop_Min)
  have c3: "keyword_rank x = (if ?ms = [] then 50 else Min (set ?ms))"
  proof (cases "?ms = []")
    case True
    then show ?thesis using r by simp
  next
    case False
    then have "Min (set ?ms) \<in> set ?ms" by (intro Min_in) auto
    then have "Min (set ?ms) < 50" by (rule matching_priorities_lt)
    moreover have "Min (insert 50 (set ?ms)) = min 50 (Min (set ?ms))"
      using False by (intro Min_insert) auto
    ultimately show ?thesis using False r by simp
  qed
  have c1: "photo_key x = (keyword_rank x, basename x)"
    by (simp add: photo_key_def)
  have "photo_key = (\<lambda>x. (keyword_rank x, basename x))"
    by (simp add: fun_eq_iff photo_key_def)
  then have c2: "default_order srcs = sort_key (\<lambda>x. (keyword_rank x, basename x)) srcs"
    by (simp add: default_order_def)
  from c1 c2 c3 show ?thesis by blast
qed

text \<open>
  The rank of a name is taken over the whole discovered path, here a directory called Kitchen.
\<close>

theorem keyword_rank_sort_key_witness:
  "matching_priorities (py_lower ''Kitchen/IMG_1.jpg'') \<noteq> [] \<and> photo_key ''Kitchen/IMG_1.jpg'' = (4, ''IMG_1.jpg'') \<and>
   matching_priorities (py_lower ''IMG_1.jpg'') = [] \<and> keyword_rank ''IMG_1.jpg'' = 50"
proof -
  have h1: "matching_priorities (py_lower ''Kitchen/IMG_1.jpg'') = [4]" by code_simp
  have h2: "matching_priorities (py_lower ''IMG_1.jpg'') = []" by code_simp
  have h3: "basename ''Kitchen/IMG_1.jpg'' = ''IMG_1.jpg''" by code_simp
  show ?thesis
    using keyword_rank_sort_key [of "''Kitchen/IMG_1.jpg''"] keyword_rank_sort_key [of "''IMG_1.jpg''"]
    unfolding h1 h2 h3 by simp
qed

text \<open>
  Claim C2 as stated fails: the rank is not that of the file name. A picture in a directory
  called Kitchen has rank 4 although no keyword occurs in its file name, and it is ordered
  before a picture whose file name has the same rank 50 and is smaller.
\<close>

theorem keyword_rank_path_counterexample:
  "keyword_rank ''extracted/Kitchen/IMG_1.jpg'' = 4 \<and>
   basename ''extracted/Kitchen/IMG_1.jpg'' = ''IMG_1.jpg'' \<and>
   matching_priorities (py_lower ''IMG_1.jpg'') = [] \<and>
   keyword_rank ''IMG_1.jpg'' = 50 \<and>
   basename ''extracted/IMG_0.jpg'' = ''IMG_0.jpg'' \<and>
   keyword_rank ''IMG_0.jpg'' = 50 \<and>
   ''IMG_0.jpg'' < ''IMG_1.jpg'' \<and>
   default_order [''extracted/IMG_0.jpg'', ''extracted/Kitchen/IMG_1.jpg''] =
     [''extracted/Kitchen/IMG_1.jpg'', ''extracted/IMG_0.jpg'']"
  by code_simp

subsection \<open>Default ordering\<close>

lemma keyword_rank_exterior:
  "sublist ''exterior'' (py_lower x) \<Longrightarrow> keyword_rank x = 0"
proof -
  assume a: "sublist ''exterior'' (py_lower x)"
  have "keyword_rank x = rank_loop (py_lower x) (tl order_table) 0"
    using a by (simp add: keyword_rank_def order_table_def)
  moreover have "rank_loop (py_lower x) (tl order_table) 0 \<le> 0" by (rule rank_loop_le)
  moreover have "0 \<le> rank_loop (py_lower x) (tl order_table) 0"
    by (rule rank_loop_ge) (simp_all add: order_table_def)
  ultimately show ?thesis by simp
qed

lemma keyword_rank_no_exterior:
  "\<not> sublist ''exterior'' (py_lower x) \<Longrightarrow> 1 \<le> keyword_rank x"
proof -
  assume a: "\<not> sublist ''exterior'' (py_lower x)"
  have "keyword_rank x = rank_loop (py_lower x) (tl order_table) 50"
    using a by (simp add: keyword_rank_def order_table_def)
  moreover have "1 \<le> rank_loop (py_lower x) (tl order_table) 50"
    by (rule rank_loop_ge) (simp_all add: order_table_def)
  ultimately show ?thesis by simp
qed

lemma sorted_default_order: "sorted (map photo_key (default_order srcs))"
  by (simp add: default_order_def)

text \<open>
  Claim C7, as amended. Under the default ordering, a file whose lower-cased path contains
  "kitchen" and does not contain "exterior" never comes before a file whose lower-cased path
  contains "exterior".
\<close>

theorem exterior_before_kitchen:
  assumes "sublist ''exterior'' (py_lower a)"
    and "sublist ''kitchen'' (py_lower b)"
    and "\<not> sublist ''exterior'' (py_lower b)"
  shows "\<not> (\<exists>pre mid post. default_order srcs = pre @ b # mid @ a # post)"
proof
  assume "\<exists>pre mid post. default_order srcs = pre @ b # mid @ a # post"
  then obtain pre mid post where d: "default_order srcs = pre @ b # mid @ a # post" by blast
  have "sorted (map photo_key (pre @ b # mid @ a # post))"
    using sorted_default_order [of srcs] d by simp
  then have "photo_key b \<le> photo_key a"
    by (simp add: sorted_append)
  then have "keyword_rank b \<le> keyword_rank a"
    by (auto simp: photo_key_def)
  then show False
    using keyword_rank_exterior [OF assms(1)] keyword_rank_no_exterior [OF assms(3)] by simp
qed

text \<open>
  The end-to-end example of the specification: Exterior\_Front comes first, Kitchen second.
\<close>

theorem exterior_before_kitchen_witness:
  "sublist ''exterior'' (py_lower ''Exterior_Front.jpg'') \<and>
   sublist ''kitchen'' (py_lower ''Kitchen.jpg'') \<and>
   \<not> sublist ''exterior'' (py_lower ''Kitchen.jpg'') \<and>
   default_order [''Kitchen.jpg'', ''Exterior_Front.jpg''] = [] @ ''Exterior_Front.jpg'' # [] @ ''Kitchen.jpg'' # [] \<and>
   \<not> (\<exists>pre mid post. default_order [''Kitchen.jpg'', ''Exterior_Front.jpg''] = pre @ ''Kitchen.jpg'' # mid @ ''Exterior_Front.jpg'' # post)"
proof -
  have h1: "sublist ''exterior'' (py_lower ''Exterior_Front.jpg'')" by code_simp
  have h2: "sublist ''kitchen'' (py_lower ''Kitchen.jpg'')" by code_simp
  have h3: "\<not> sublist ''exterior'' (py_lower ''Kitchen.jpg'')" by code_simp
  have h4: "default_order [''Kitchen.jpg'', ''Exterior_Front.jpg''] = [] @ ''Exterior_Front.jpg'' # [] @ ''Kitchen.jpg'' # []"
    by code_simp
  show ?thesis
    using h1 h2 h3 h4 exterior_before_kitchen [OF h1 h2 h3, of "[''Kitchen.jpg'', ''Exterior_Front.jpg'']"]
    by blast
qed

text \<open>
  Claim C7 as stated fails: the minimum priority wins, so a name with both keywords has
  rank 0 and is ordered among the exterior pictures by its base name.
\<close>

theorem kitchen_before_exterior_counterexample:
  "sublist ''kitchen'' (py_lower ''exterior_kitchen_window.jpg'') \<and>
   sublist ''exterior'' (py_lower ''exterior_view.jpg'') \<and>
   default_order [''exterior_view.jpg'', ''exterior_kitchen_window.jpg'']
     = [''exterior_kitchen_window.jpg'', ''exterior_view.jpg'']"
  by code_simp

subsection \<open>Explicit ordering\<close>








subsection \<open>Captions\<close>

lemma rfind_absent: "c \<notin> set s \<Longrightarrow> rfind s c = - 1"
  by (simp add: rfind_def)

lemma rfind_last: "rfind (t @ [c]) c = int (length t)"
  by (simp add: rfind_def)

lemma basename_no_sep: "CHR ''/'' \<notin> set p \<Longrightarrow> basename p = p"
  by (simp add: basename_def rfind_absent)

lemma sub_from_no_sep: "list_all (\<lambda>c. \<not> is_sep c) t \<Longrightarrow> sub_from b t = t"
  by (induction t arbitrary: b) auto

lemma slug_to_caption_nonempty: "slug_to_caption name \<noteq> []"
  by (auto simp: slug_to_caption_def Let_def py_endswith_def)

lemma splitext_stem_dot:
  assumes "CHR ''/'' \<notin> set t" and "\<not> py_endswith t ''.''"
  shows "fst (splitext (t @ ''.'')) = (if t = [] then ''.'' else t)"
proof (cases "t = []")
  case True
  then show ?thesis by (simp add: splitext_def rfind_def)
next
  case False
  have "t = butlast t @ [last t]" using False by simp
  then have "last t \<noteq> CHR ''.''"
    using assms(2) unfolding py_endswith_def suffix_def by metis
  moreover have "last t \<in> set t" using False by simp
  ultimately have "list_ex (\<lambda>d. d \<noteq> CHR ''.'') t"
    unfolding list_ex_iff by blast
  then have "list_ex (\<lambda>d. d \<noteq> CHR ''.'') t" .
  moreover have "rfind (t @ ''.'') CHR ''/'' = - 1"
    using assms(1) by (intro rfind_absent) simp
  moreover have "rfind (t @ ''.'') CHR ''.'' = int (length t)"
    by (rule rfind_last)
  ultimately show ?thesis using False by (simp add: splitext_def)
qed

lemma load_rows_step:
  assumes "load_rows (row # rows) caps0 = Inr caps"
  obtains f c where "row_get row ''filename'' = Some f" and "row_get row ''caption'' = Some c"
    and "load_rows rows (if py_strip f \<noteq> [] \<and> py_strip c \<noteq> [] then caps0(py_strip f \<mapsto> py_strip c) else caps0) = Inr caps"
proof (cases "row_get row ''filename''")
  case None
  then show ?thesis using assms by simp
next
  case f: (Some f)
  show ?thesis
  proof (cases "row_get row ''caption''")
    case None
    then show ?thesis using assms f by simp
  next
    case (Some c)
    then show ?thesis using assms f that [of f c] by (simp add: Let_def)
  qed
qed

lemma load_rows_nonempty:
  "load_rows rows caps0 = Inr caps \<Longrightarrow> \<forall>k v. caps0 k = Some v \<longrightarrow> v \<noteq> [] \<Longrightarrow>
   \<forall>k v. caps k = Some v \<longrightarrow> v \<noteq> []"
proof (induction rows arbitrary: caps0)
  case Nil
  then show ?case by simp
next
  case (Cons row rows)
  from Cons.prems(1) obtain f c where
    l: "load_rows rows (if py_strip f \<noteq> [] \<and> py_strip c \<noteq> [] then caps0(py_strip f \<mapsto> py_strip c) else caps0) = Inr caps"
    by (rule load_rows_step)
  have "\<forall>k v. (if py_strip f \<noteq> [] \<and> py_strip c \<noteq> [] then caps0(py_strip f \<mapsto> py_strip c) else caps0) k = Some v \<longrightarrow> v \<noteq> []"
    using Cons.prems(2) by simp
  then show ?case by (rule Cons.IH [OF l])
qed

lemma load_rows_source:
  "load_rows rows caps0 = Inr caps \<Longrightarrow> caps k = Some v \<Longrightarrow>
   caps0 k = Some v \<or>
   (\<exists>row \<in> set rows. \<exists>f c. row_get row ''filename'' = Some f \<and> row_get row ''caption'' = Some c \<and>
      py_strip f = k \<and> py_strip c = v)"
proof (induction rows arbitrary: caps0)
  case Nil
  then show ?case by simp
next
  case (Cons row rows)
  from Cons.prems(1) obtain f c where
    f: "row_get row ''filename'' = Some f" and c: "row_get row ''caption'' = Some c" and
    l: "load_rows rows (if py_strip f \<noteq> [] \<and> py_strip c \<noteq> [] then caps0(py_strip f \<mapsto> py_strip c) else caps0) = Inr caps"
    by (rule load_rows_step)
  let ?caps1 = "if py_strip f \<noteq> [] \<and> py_strip c \<noteq> [] then caps0(py_strip f \<mapsto> py_strip c) else caps0"
  from Cons.IH [OF l Cons.prems(2)] consider
    (old) "?caps1 k = Some v"
    | (rest) "\<exists>row \<in> set rows. \<exists>f c. row_get row ''filename'' = Some f \<and> row_get row ''caption'' = Some c \<and>
      py_strip f = k \<and> py_strip c = v"
    by blast
  then show ?case
  proof cases
    case old
    show ?thesis
    proof (cases "caps0 k = Some v")
      case True
      then show ?thesis by simp
    next
      case False
      then have "py_strip f = k \<and> py_strip c = v"
        using old by (auto split: if_splits)
      then show ?thesis using f c by auto
    qed
  next
    case rest
    then show ?thesis by auto
  qed
qed

lemma load_rows_keeps:
  "load_rows rows caps0 = Inr caps \<Longrightarrow> caps0 k \<noteq> None \<Longrightarrow> caps k \<noteq> None"
proof (induction rows arbitrary: caps0)
  case Nil
  then show ?case by simp
next
  case (Cons row rows)
  from Cons.prems(1) obtain f c where
    l: "load_rows rows (if py_strip f \<noteq> [] \<and> py_strip c \<noteq> [] then caps0(py_strip f \<mapsto> py_strip c) else caps0) = Inr caps"
    by (rule load_rows_step)
  have "(if py_strip f \<noteq> [] \<and> py_strip c \<noteq> [] then caps0(py_strip f \<mapsto> py_strip c) else caps0) k \<noteq> None"
    using Cons.prems(2) by simp
  then show ?case by (rule Cons.IH [OF l])
qed

lemma load_rows_present:
  "load_rows rows caps0 = Inr caps \<Longrightarrow> row \<in> set rows \<Longrightarrow>
   row_get row ''filename'' = Some f \<Longrightarrow> row_get row ''caption'' = Some c \<Longrightarrow>
   py_strip f \<noteq> [] \<Longrightarrow> py_strip c \<noteq> [] \<Longrightarrow> caps (py_strip f) \<noteq> None"
proof (induction rows arbitrary: caps0)
  case Nil
  then show ?case by simp
next
  case (Cons r rows)
  from Cons.prems(1) obtain f' c' where
    f': "row_get r ''filename'' = Some f'" and c': "row_get r ''caption'' = Some c'" and
    l: "load_rows rows (if py_strip f' \<noteq> [] \<and> py_strip c' \<noteq> [] then caps0(py_strip f' \<mapsto> py_strip c') else caps0) = Inr caps"
    by (rule load_rows_step)
  show ?case
  proof (cases "row = r")
    case True
    then have "f' = f" and "c' = c" using f' c' Cons.prems(3,4) by simp_all
    then have "load_rows rows (caps0(py_strip f \<mapsto> py_strip c)) = Inr caps"
      using l Cons.prems(5,6) by simp
    then show ?thesis by (rule load_rows_keeps) simp
  next
    case False
    then have "row \<in> set rows" using Cons.prems(2) by simp
    then show ?thesis using Cons.IH [OF l] Cons.prems(3-6) by blast
  qed
qed

text \<open>
  Resolution on a table that was loaded. Given the table loaded from the caption file (or
  the empty table when there is none), the caption of a file name is the entry of the table
  when there is one, and the
  caption derived from the name otherwise: runs of underscores and hyphens of the stem
  replaced by blanks, trimmed, title-cased, with a period appended unless one is there.
  The result is never empty. Every entry of the table is the non-empty trimmed caption of a
  row with that trimmed file name, and a row with a non-empty trimmed file name and caption
  gives the name an entry.
\<close>

theorem caption_resolution:
  assumes "load_captions_csv rows = Inr caps"
  shows "resolve_caption caps base \<noteq> [] \<and>
         resolve_caption caps base =
           (case caps base of Some tx \<Rightarrow> tx | None \<Rightarrow> slug_to_caption base) \<and>
         resolve_caption Map.empty base = slug_to_caption base \<and>
         slug_to_caption base =
           (let cap = py_title (py_strip (re_sub_seps (fst (splitext (basename base)))))
            in if py_endswith cap ''.'' then cap else cap @ ''.'') \<and>
         (\<forall>tx. caps base = Some tx \<longrightarrow> tx \<noteq> [] \<and>
            (\<exists>row \<in> set rows. \<exists>f c. row_get row ''filename'' = Some f \<and>
               row_get row ''caption'' = Some c \<and> py_strip f = base \<and> py_strip c = tx)) \<and>
         (\<forall>row \<in> set rows. \<forall>f c. row_get row ''filename'' = Some f \<and>
            row_get row ''caption'' = Some c \<and> py_strip f = base \<and> base \<noteq> [] \<and> py_strip c \<noteq> []
            \<longrightarrow> caps base \<noteq> None)"
proof -
  have l: "load_rows rows Map.empty = Inr caps"
    using assms by (simp add: load_captions_csv_def)
  have ne: "tx \<noteq> []" if "caps base = Some tx" for tx
    using load_rows_nonempty [OF l] that by simp
  have c1: "resolve_caption caps base \<noteq> []"
    using ne by (auto simp: resolve_caption_def slug_to_caption_nonempty split: option.splits)
  have c2: "resolve_caption caps base = (case caps base of Some tx \<Rightarrow> tx | None \<Rightarrow> slug_to_caption base)"
    by (simp add: resolve_caption_def)
  have c3: "resolve_caption Map.empty base = slug_to_caption base"
    by (simp add: resolve_caption_def)
  have c4: "slug_to_caption base =
           (let cap = py_title (py_strip (re_sub_seps (fst (splitext (basename base)))))
            in if py_endswith cap ''.'' then cap else cap @ ''.'')"
    by (simp add: slug_to_caption_def Let_def)
  have c5: "\<forall>tx. caps base = Some tx \<longrightarrow> tx \<noteq> [] \<and>
            (\<exists>row \<in> set rows. \<exists>f c. row_get row ''filename'' = Some f \<and>
               row_get row ''caption'' = Some c \<and> py_strip f = base \<and> py_strip c = tx)"
    using ne load_rows_source [OF l] by fastforce
  have c6: "\<forall>row \<in> set rows. \<forall>f c. row_get row ''filename'' = Some f \<and>
            row_get row ''caption'' = Some c \<and> py_strip f = base \<and> base \<noteq> [] \<and> py_strip c \<noteq> []
            \<longrightarrow> caps base \<noteq> None"
    using load_rows_present [OF l] by blast
  from c1 c2 c3 c4 c5 c6 show ?thesis by blast
qed

theorem caption_resolution_witness:
  "load_captions_csv
     [[''filename'' \<mapsto> Some '' a.jpg '', ''caption'' \<mapsto> Some ''Hello''],
      [''filename'' \<mapsto> Some ''b_c.jpg'', ''caption'' \<mapsto> Some ''  '']]
     = Inr [''a.jpg'' \<mapsto> ''Hello''] \<and>
   resolve_caption [''a.jpg'' \<mapsto> ''Hello''] ''a.jpg'' = ''Hello'' \<and>
   resolve_caption [''a.jpg'' \<mapsto> ''Hello''] ''b_c.jpg'' = ''B C.'' \<and>
   resolve_caption [''a.jpg'' \<mapsto> ''Hello''] ''b_c.jpg'' \<noteq> []"
proof -
  have s1: "py_strip '' a.jpg '' = ''a.jpg''" by code_simp
  have s2: "py_strip ''Hello'' = ''Hello''" by code_simp
  have s3: "py_strip ''b_c.jpg'' = ''b_c.jpg''" by code_simp
  have s4: "py_strip ''  '' = []" by code_simp
  have s5: "slug_to_caption ''b_c.jpg'' = ''B C.''" by code_simp
  have g1: "row_get [''filename'' \<mapsto> Some '' a.jpg '', ''caption'' \<mapsto> Some ''Hello''] ''filename'' = Some '' a.jpg ''"
    by (simp add: row_get_def)
  have g2: "row_get [''filename'' \<mapsto> Some '' a.jpg '', ''caption'' \<mapsto> Some ''Hello''] ''caption'' = Some ''Hello''"
    by (simp add: row_get_def)
  have g3: "row_get [''filename'' \<mapsto> Some ''b_c.jpg'', ''caption'' \<mapsto> Some ''  ''] ''filename'' = Some ''b_c.jpg''"
    by (simp add: row_get_def)
  have g4: "row_get [''filename'' \<mapsto> Some ''b_c.jpg'', ''caption'' \<mapsto> Some ''  ''] ''caption'' = Some ''  ''"
    by (simp add: row_get_def)
  have l: "load_captions_csv
     [[''filename'' \<mapsto> Some '' a.jpg '', ''caption'' \<mapsto> Some ''Hello''],
      [''filename'' \<mapsto> Some ''b_c.jpg'', ''caption'' \<mapsto> Some ''  '']]
     = Inr [''a.jpg'' \<mapsto> ''Hello'']"
    unfolding load_captions_csv_def load_rows.simps g1 g2 g3 g4 option.case Let_def s1 s2 s3 s4 by simp
  have c1: "[''a.jpg'' \<mapsto> ''Hello''] ''a.jpg'' = Some ''Hello''" by simp
  have c2: "[''a.jpg'' \<mapsto> ''Hello''] ''b_c.jpg'' = None" by simp
  have "resolve_caption [''a.jpg'' \<mapsto> ''Hello''] ''a.jpg'' =
      (case [''a.jpg'' \<mapsto> ''Hello''] ''a.jpg'' of Some tx \<Rightarrow> tx | None \<Rightarrow> slug_to_caption ''a.jpg'')"
    using caption_resolution [OF l, of "''a.jpg''"] by blast
  then have r1: "resolve_caption [''a.jpg'' \<mapsto> ''Hello''] ''a.jpg'' = ''Hello''"
    unfolding c1 by simp
  have "resolve_caption [''a.jpg'' \<mapsto> ''Hello''] ''b_c.jpg'' =
      (case [''a.jpg'' \<mapsto> ''Hello''] ''b_c.jpg'' of Some tx \<Rightarrow> tx | None \<Rightarrow> slug_to_caption ''b_c.jpg'')"
    using caption_resolution [OF l, of "''b_c.jpg''"] by blast
  then have r2: "resolve_caption [''a.jpg'' \<mapsto> ''Hello''] ''b_c.jpg'' = ''B C.''"
    unfolding c2 s5 by simp
  have r3: "resolve_caption [''a.jpg'' \<mapsto> ''Hello''] ''b_c.jpg'' \<noteq> []"
    using caption_resolution [OF l, of "''b_c.jpg''"] by blast
  from l r1 r2 r3 show ?thesis by blast
qed

text \<open>
  Claim C5: caption resolution never fails and always returns usable text. The code does
  not achieve this. A row of the caption file that is shorter than the header is read with
  \<open>None\<close> for its caption, \<open>row.get("caption", "")\<close> returns that \<open>None\<close> rather than the
  default, and \<open>.strip()\<close> raises \<open>AttributeError\<close>: the table is not loaded, and the run
  ends before any image is processed and before any caption is resolved.
\<close>

theorem load_captions_csv_short_row_fails:
  "load_captions_csv [[''filename'' \<mapsto> Some ''Kitchen.jpg'', ''caption'' \<mapsto> None]] =
     Inl AttributeError \<and>
   main example_lib
     (example_world_csv [(''output/landmark/extracted'', [''Kitchen.jpg''])]
        [[''filename'' \<mapsto> Some ''Kitchen.jpg'', ''caption'' \<mapsto> None]])
     (example_args\<lparr>captions_csv := Some ''captions.csv''\<rparr>) =
   ([MakeDirs ''output/landmark'', ExtractAll ''input/photos.zip'' ''output/landmark/extracted''],
    Inl AttributeError)"
proof -
  have l: "load_captions_csv [[''filename'' \<mapsto> Some ''Kitchen.jpg'', ''caption'' \<mapsto> None]] =
     Inl AttributeError"
    by (simp add: load_captions_csv_def row_get_def)
  have m: "main example_lib
     (example_world_csv [(''output/landmark/extracted'', [''Kitchen.jpg''])]
        [[''filename'' \<mapsto> Some ''Kitchen.jpg'', ''caption'' \<mapsto> None]])
     (example_args\<lparr>captions_csv := Some ''captions.csv''\<rparr>) =
   ([MakeDirs ''output/landmark'', ExtractAll ''input/photos.zip'' ''output/landmark/extracted''],
    Inl AttributeError)"
    by code_simp
  from l m show ?thesis by (rule conjI)
qed

text \<open>
  Claim C6, as amended. \<open>slug_to_caption\<close> returns its input unchanged when the input is
  a title-cased text \<open>t\<close> followed by one period, where \<open>t\<close> has no path separator,
  underscore or hyphen, no white space at either end and no period at its end; in
  particular on "Living Room.".
\<close>

theorem slug_to_caption_fixed:
  assumes "CHR ''/'' \<notin> set t"
    and "list_all (\<lambda>c. \<not> is_sep c) t"
    and "py_strip t = t"
    and "py_title t = t"
    and "\<not> py_endswith t ''.''"
  shows "slug_to_caption (t @ ''.'') = t @ ''.'' \<and> slug_to_caption ''Living Room.'' = ''Living Room.''"
proof -
  have b: "basename (t @ ''.'') = t @ ''.''"
    using assms(1) by (intro basename_no_sep) simp
  have "slug_to_caption (t @ ''.'') = t @ ''.''"
  proof (cases "t = []")
    case True
    have "slug_to_caption ''.'' = ''.''" by code_simp
    then show ?thesis using True by simp
  next
    case False
    then have "fst (splitext (t @ ''.'')) = t"
      using splitext_stem_dot [OF assms(1) assms(5)] by simp
    then show ?thesis
      using assms b by (simp add: slug_to_caption_def Let_def re_sub_seps_def sub_from_no_sep)
  qed
  moreover have "slug_to_caption ''Living Room.'' = ''Living Room.''" by code_simp
  ultimately show ?thesis by simp
qed

theorem slug_to_caption_fixed_witness:
  "CHR ''/'' \<notin> set ''Living Room'' \<and> list_all (\<lambda>c. \<not> is_sep c) ''Living Room'' \<and>
   py_strip ''Living Room'' = ''Living Room'' \<and> py_title ''Living Room'' = ''Living Room'' \<and>
   \<not> py_endswith ''Living Room'' ''.'' \<and>
   slug_to_caption (''Living Room'' @ ''.'') = ''Living Room'' @ ''.''"
proof -
  have h1: "CHR ''/'' \<notin> set ''Living Room''" by simp
  have h2: "list_all (\<lambda>c. \<not> is_sep c) ''Living Room''" by code_simp
  have h3: "py_strip ''Living Room'' = ''Living Room''" by code_simp
  have h4: "py_title ''Living Room'' = ''Living Room''" by code_simp
  have h5: "\<not> py_endswith ''Living Room'' ''.''" by code_simp
  show ?thesis
    using h1 h2 h3 h4 h5 slug_to_caption_fixed [OF h1 h2 h3 h4 h5] by blast
qed

text \<open>
  Claim C6 as stated fails: an input that is title-cased and ends with a period is changed
  when its stem still ends with a period or a blank, and applying the function again
  changes it once more.
\<close>

theorem slug_to_caption_not_idempotent_counterexample:
  "py_title ''Living Room ..'' = ''Living Room ..'' \<and>
   py_endswith ''Living Room ..'' ''.'' \<and>
   slug_to_caption ''Living Room ..'' = ''Living Room .'' \<and>
   slug_to_caption ''Living Room ..'' \<noteq> ''Living Room ..'' \<and>
   slug_to_caption (slug_to_caption ''Living Room ..'') = ''Living Room.'' \<and>
   slug_to_caption (slug_to_caption ''Living Room ..'') \<noteq> slug_to_caption ''Living Room ..''"
  by code_simp

subsection \<open>Web variant and watermark\<close>

lemma int_quot_nonneg:
  "0 \<le> a \<Longrightarrow> 0 < b \<Longrightarrow> int_quot a b = Inr (a div b)"
  by (cases "a = 0") (simp_all add: int_quot_def)

lemma pil_resize_ok:
  "1 \<le> w \<Longrightarrow> 1 \<le> h \<Longrightarrow> pil_resize im (w, h) = Inr (im\<lparr>width := nat w, height := nat h\<rparr>)"
  by (simp add: pil_resize_def)

lemma pil_resize_Inr:
  "pil_resize im (w, h) = Inr im' \<Longrightarrow> 1 \<le> w \<and> 1 \<le> h \<and> im' = im\<lparr>width := nat w, height := nat h\<rparr>"
  by (auto simp: pil_resize_def split: if_splits)

lemma scaled_le:
  fixes a b m :: int
  assumes "0 \<le> a" "0 \<le> m" "m < b"
  shows "a * m div b \<le> a"
proof -
  have "a * m \<le> a * b" using assms by (intro mult_left_mono) simp_all
  then have "a * m div b \<le> a * b div b" using assms by (intro zdiv_mono1) simp_all
  then show ?thesis using assms by simp
qed

lemma scaled_pos:
  fixes a b m :: int
  assumes "0 \<le> a" "0 < b" "1 \<le> a * m div b"
  shows "1 \<le> m"
proof (rule ccontr)
  assume "\<not> 1 \<le> m"
  then have "m \<le> 0" by simp
  then have "a * m \<le> 0" using assms(1) by (simp add: mult_nonneg_nonpos)
  then have "a * m div b \<le> 0" using assms(2) by (rule div_nonpos_pos_le0)
  then show False using assms(3) by simp
qed

lemma resize_for_web_wide:
  assumes "m < int (width im)" and "height im < width im"
    and "1 \<le> int (height im) * m div int (width im)"
  shows "resize_for_web im m =
           Inr (im\<lparr>width := nat m, height := nat (int (height im) * m div int (width im))\<rparr>)"
proof -
  define k where "k = int (height im) * m div int (width im)"
  have k: "1 \<le> k" using assms(3) by (simp only: k_def)
  have w: "0 < int (width im)" using assms(2) by simp
  have "0 \<le> int (height im)" by simp
  then have m: "1 \<le> m" using w assms(3) by (rule scaled_pos)
  have "int_quot (int (height im) * m) (int (width im)) = Inr (int (height im) * m div int (width im))"
    using m w by (intro int_quot_nonneg) simp_all
  then have q: "int_quot (int (height im) * m) (int (width im)) = Inr k"
    by (simp only: k_def)
  have r: "pil_resize im (m, k) = Inr (im\<lparr>width := nat m, height := nat k\<rparr>)"
    using m k by (rule pil_resize_ok)
  have "resize_for_web im m = Inr (im\<lparr>width := nat m, height := nat k\<rparr>)"
    using assms(1,2) q r by (simp add: resize_for_web_def Let_def)
  then show ?thesis by (simp only: k_def)
qed

lemma resize_for_web_tall:
  assumes "m < int (height im)" and "width im \<le> height im"
    and "1 \<le> int (width im) * m div int (height im)"
  shows "resize_for_web im m =
           Inr (im\<lparr>width := nat (int (width im) * m div int (height im)), height := nat m\<rparr>)"
proof -
  define k where "k = int (width im) * m div int (height im)"
  have k: "1 \<le> k" using assms(3) by (simp only: k_def)
  have h: "0 < int (height im)"
  proof (cases "height im = 0")
    case True
    then have "k = 0" by (simp add: k_def)
    then show ?thesis using k by simp
  next
    case False
    then show ?thesis by simp
  qed
  have "0 \<le> int (width im)" by simp
  then have m: "1 \<le> m" using h assms(3) by (rule scaled_pos)
  have "int_quot (int (width im) * m) (int (height im)) = Inr (int (width im) * m div int (height im))"
    using m h by (intro int_quot_nonneg) simp_all
  then have q: "int_quot (int (width im) * m) (int (height im)) = Inr k"
    by (simp only: k_def)
  have r: "pil_resize im (k, m) = Inr (im\<lparr>width := nat k, height := nat m\<rparr>)"
    using k m by (rule pil_resize_ok)
  have "resize_for_web im m = Inr (im\<lparr>width := nat k, height := nat m\<rparr>)"
    using assms(1,2) q r by (simp add: resize_for_web_def Let_def)
  then show ?thesis by (simp only: k_def)
qed

lemma resize_for_web_small:
  "max (int (width im)) (int (height im)) \<le> m \<Longrightarrow> resize_for_web im m = Inr im"
  by (simp add: resize_for_web_def Let_def)

lemma resize_for_web_no_upscaling:
  assumes "resize_for_web im m = Inr im'"
  shows "width im' \<le> width im \<and> height im' \<le> height im"
proof (cases "max (int (width im)) (int (height im)) \<le> m")
  case True
  then show ?thesis using assms by (simp add: resize_for_web_small)
next
  case False
  show ?thesis
  proof (cases "height im < width im")
    case True
    then have lt: "m < int (width im)" using False by simp
    obtain q where q: "int_quot (int (height im) * m) (int (width im)) = Inr q"
      and r: "pil_resize im (m, q) = Inr im'"
      using assms False True by (auto simp: resize_for_web_def Let_def split: sum.splits)
    from r have m: "1 \<le> m" and im': "im' = im\<lparr>width := nat m, height := nat q\<rparr>"
      by (auto dest: pil_resize_Inr)
    have "int_quot (int (height im) * m) (int (width im)) = Inr (int (height im) * m div int (width im))"
      using m True by (intro int_quot_nonneg) simp_all
    then have "q = int (height im) * m div int (width im)" using q by simp
    moreover have "int (height im) * m div int (width im) \<le> int (height im)"
      using m lt by (intro scaled_le) simp_all
    ultimately show ?thesis using im' lt by auto
  next
    case tall: False
    then have lt: "m < int (height im)" using False by simp
    obtain q where q: "int_quot (int (width im) * m) (int (height im)) = Inr q"
      and r: "pil_resize im (q, m) = Inr im'"
      using assms False tall by (auto simp: resize_for_web_def Let_def split: sum.splits)
    from r have m: "1 \<le> m" and im': "im' = im\<lparr>width := nat q, height := nat m\<rparr>"
      by (auto dest: pil_resize_Inr)
    have "int_quot (int (width im) * m) (int (height im)) = Inr (int (width im) * m div int (height im))"
      using m lt by (intro int_quot_nonneg) simp_all
    then have "q = int (width im) * m div int (height im)" using q by simp
    moreover have "int (width im) * m div int (height im) \<le> int (width im)"
      using m lt by (intro scaled_le) simp_all
    ultimately show ?thesis using im' lt by auto
  qed
qed

text \<open>
  Claim C3, as amended. \<open>resize_for_web\<close> returns its input when both dimensions are at most
  the maximum side length. Otherwise, when the shorter side multiplied by maximum / longer
  side and rounded down is at least 1, the longer side becomes the maximum and the shorter
  side that value. A 5000 x 3000 image becomes 2560 x 1536 with the default maximum of 2560,
  a 2000 x 1000 image is returned as it is, and whenever an image is returned neither of its
  dimensions exceeds the corresponding dimension of the input.
\<close>

theorem resize_for_web_spec:
  "(max (int (width im)) (int (height im)) \<le> max_side \<longrightarrow> resize_for_web im max_side = Inr im) \<and>
   (max_side < int (width im) \<and> height im < width im \<and>
    1 \<le> int (height im) * max_side div int (width im) \<longrightarrow>
      resize_for_web im max_side =
        Inr (im\<lparr>width := nat max_side,
                  height := nat (int (height im) * max_side div int (width im))\<rparr>)) \<and>
   (max_side < int (height im) \<and> width im \<le> height im \<and>
    1 \<le> int (width im) * max_side div int (height im) \<longrightarrow>
      resize_for_web im max_side =
        Inr (im\<lparr>width := nat (int (width im) * max_side div int (height im)),
                  height := nat max_side\<rparr>)) \<and>
   (\<forall>im'. resize_for_web im max_side = Inr im' \<longrightarrow>
      width im' \<le> width im \<and> height im' \<le> height im) \<and>
   resize_for_web \<lparr>width = 5000, height = 3000, mode = ''RGB'', orientation = 0\<rparr> default_max_side =
     Inr \<lparr>width = 2560, height = 1536, mode = ''RGB'', orientation = 0\<rparr> \<and>
   resize_for_web \<lparr>width = 2000, height = 1000, mode = ''RGB'', orientation = 0\<rparr> default_max_side =
     Inr \<lparr>width = 2000, height = 1000, mode = ''RGB'', orientation = 0\<rparr>"
proof -
  have e1: "resize_for_web \<lparr>width = 5000, height = 3000, mode = ''RGB'', orientation = 0\<rparr> default_max_side =
     Inr \<lparr>width = 2560, height = 1536, mode = ''RGB'', orientation = 0\<rparr>"
    by (simp add: resize_for_web_def default_max_side_def int_quot_def pil_resize_def)
  have e2: "resize_for_web \<lparr>width = 2000, height = 1000, mode = ''RGB'', orientation = 0\<rparr> default_max_side =
     Inr \<lparr>width = 2000, height = 1000, mode = ''RGB'', orientation = 0\<rparr>"
    by (simp add: resize_for_web_def default_max_side_def)
  show ?thesis
    using resize_for_web_small [of im max_side] resize_for_web_wide [of max_side im]
      resize_for_web_tall [of max_side im] resize_for_web_no_upscaling [of im max_side] e1 e2
    by blast
qed

theorem resize_for_web_spec_witness:
  "max (int (width \<lparr>width = 2000, height = 1000, mode = ''RGB'', orientation = 0\<rparr>))
       (int (height \<lparr>width = 2000, height = 1000, mode = ''RGB'', orientation = 0\<rparr>)) \<le> 2560 \<and>
   resize_for_web \<lparr>width = 2000, height = 1000, mode = ''RGB'', orientation = 0\<rparr> 2560 =
     Inr \<lparr>width = 2000, height = 1000, mode = ''RGB'', orientation = 0\<rparr> \<and>
   2560 < int (width \<lparr>width = 5000, height = 3000, mode = ''RGB'', orientation = 0\<rparr>) \<and>
   height \<lparr>width = 5000, height = 3000, mode = ''RGB'', orientation = 0\<rparr>
     < width \<lparr>width = 5000, height = 3000, mode = ''RGB'', orientation = 0\<rparr> \<and>
   1 \<le> int (height \<lparr>width = 5000, height = 3000, mode = ''RGB'', orientation = 0\<rparr>) * 2560 div
         int (width \<lparr>width = 5000, height = 3000, mode = ''RGB'', orientation = 0\<rparr>) \<and>
   resize_for_web \<lparr>width = 5000, height = 3000, mode = ''RGB'', orientation = 0\<rparr> 2560 =
     Inr \<lparr>width = 2560, height = 1536, mode = ''RGB'', orientation = 0\<rparr> \<and>
   2560 < int (height \<lparr>width = 3000, height = 4000, mode = ''RGB'', orientation = 0\<rparr>) \<and>
   width \<lparr>width = 3000, height = 4000, mode = ''RGB'', orientation = 0\<rparr>
     \<le> height \<lparr>width = 3000, height = 4000, mode = ''RGB'', orientation = 0\<rparr> \<and>
   1 \<le> int (width \<lparr>width = 3000, height = 4000, mode = ''RGB'', orientation = 0\<rparr>) * 2560 div
         int (height \<lparr>width = 3000, height = 4000, mode = ''RGB'', orientation = 0\<rparr>) \<and>
   resize_for_web \<lparr>width = 3000, height = 4000, mode = ''RGB'', orientation = 0\<rparr> 2560 =
     Inr \<lparr>width = 1920, height = 2560, mode = ''RGB'', orientation = 0\<rparr> \<and>
   width \<lparr>width = 1920, height = 2560, mode = ''RGB'', orientation = 0\<rparr>
     \<le> width \<lparr>width = 3000, height = 4000, mode = ''RGB'', orientation = 0\<rparr>"
proof -
  let ?a = "\<lparr>width = 2000, height = 1000, mode = ''RGB'', orientation = 0\<rparr>"
  let ?b = "\<lparr>width = 5000, height = 3000, mode = ''RGB'', orientation = 0\<rparr>"
  let ?c = "\<lparr>width = 3000, height = 4000, mode = ''RGB'', orientation = 0\<rparr>"
  have ha: "max (int (width ?a)) (int (height ?a)) \<le> 2560" by simp
  have hb: "2560 < int (width ?b) \<and> height ?b < width ?b \<and>
      1 \<le> int (height ?b) * 2560 div int (width ?b)" by simp
  have hc: "2560 < int (height ?c) \<and> width ?c \<le> height ?c \<and>
      1 \<le> int (width ?c) * 2560 div int (height ?c)" by simp
  have ra: "resize_for_web ?a 2560 = Inr ?a"
    using ha resize_for_web_spec [of ?a 2560] by blast
  have "resize_for_web ?b 2560 =
      Inr (?b\<lparr>width := nat 2560, height := nat (int (height ?b) * 2560 div int (width ?b))\<rparr>)"
    using hb resize_for_web_spec [of ?b 2560] by blast
  then have rb: "resize_for_web ?b 2560 = Inr \<lparr>width = 2560, height = 1536, mode = ''RGB'', orientation = 0\<rparr>"
    by simp
  have "resize_for_web ?c 2560 =
      Inr (?c\<lparr>width := nat (int (width ?c) * 2560 div int (height ?c)), height := nat 2560\<rparr>)"
    using hc resize_for_web_spec [of ?c 2560] by blast
  then have rc: "resize_for_web ?c 2560 = Inr \<lparr>width = 1920, height = 2560, mode = ''RGB'', orientation = 0\<rparr>"
    by simp
  have "width \<lparr>width = 1920, height = 2560, mode = ''RGB'', orientation = 0\<rparr> \<le> width ?c"
    using rc resize_for_web_spec [of ?c 2560] by blast
  then show ?thesis using ha hb hc ra rb rc by blast
qed

text \<open>
  Claim C3 as stated fails: the shorter side of a 5000 x 1 image scaled to a maximum of 2560
  rounds down to 0, and the resize to 2560 x 0 raises \<open>ValueError\<close> instead of returning
  an image whose longer side is the maximum.
\<close>

theorem resize_for_web_thin_counterexample:
  "\<not> max (int (width \<lparr>width = 5000, height = 1, mode = ''RGB'', orientation = 0\<rparr>))
         (int (height \<lparr>width = 5000, height = 1, mode = ''RGB'', orientation = 0\<rparr>)) \<le> default_max_side \<and>
   resize_for_web \<lparr>width = 5000, height = 1, mode = ''RGB'', orientation = 0\<rparr> default_max_side =
     Inl (ValueError ''height and width must be > 0'')"
  by (simp add: resize_for_web_def default_max_side_def int_quot_def pil_resize_def)

text \<open>
  Claim C4. Whenever \<open>apply_logo_watermark\<close> returns an image, it has the width and the
  height of the image it was given (in \<open>main\<close>, the orientation-normalized one) and its
  mode is RGB.
\<close>

theorem apply_logo_watermark_size:
  assumes "apply_logo_watermark L im logo = Inr out"
  shows "width out = width im \<and> height out = height im \<and> mode out = ''RGB'' \<and>
         orientation out = orientation im"
  using assms
  by (auto simp: apply_logo_watermark_def Let_def convert_def alpha_composite_def
      split: if_splits sum.splits)

theorem apply_logo_watermark_size_witness:
  "apply_logo_watermark \<lparr>thumbnail = (\<lambda>im sz. Inr im), save_jpeg = (\<lambda>im q. Inr []),
        scaled_height = (\<lambda>h t w. int h * t div int w)\<rparr>
      \<lparr>width = 5000, height = 3000, mode = ''RGB'', orientation = 0\<rparr>
      \<lparr>width = 400, height = 200, mode = ''RGBA'', orientation = 0\<rparr>
     = Inr \<lparr>width = 5000, height = 3000, mode = ''RGB'', orientation = 0\<rparr> \<and>
   width \<lparr>width = 5000, height = 3000, mode = ''RGB'', orientation = 0\<rparr> = 5000"
proof -
  have a: "apply_logo_watermark \<lparr>thumbnail = (\<lambda>im sz. Inr im), save_jpeg = (\<lambda>im q. Inr []),
        scaled_height = (\<lambda>h t w. int h * t div int w)\<rparr>
      \<lparr>width = 5000, height = 3000, mode = ''RGB'', orientation = 0\<rparr>
      \<lparr>width = 400, height = 200, mode = ''RGBA'', orientation = 0\<rparr>
     = Inr \<lparr>width = 5000, height = 3000, mode = ''RGB'', orientation = 0\<rparr>"
    by (simp add: apply_logo_watermark_def Let_def convert_def alpha_composite_def pil_resize_def)
  show ?thesis
    using a apply_logo_watermark_size [OF a] by simp
qed

subsection \<open>The run\<close>

lemma snd_main_prog_start:
  assumes "collect_images (walk W (path_join (outdir a) ''extracted'')) = []"
  shows "(\<exists>e. snd (main L W a) = Inl e) \<and> filter is_output (fst (main L W a)) = []"
proof (cases "io_fail W (MakeDirs (outdir a))")
  case (Some err)
  then show ?thesis
    by (simp add: main_def main_prog_def Let_def and_then_def emit_def)
next
  case None
  show ?thesis
  proof (cases "io_fail W (ExtractAll (zip_path a) (path_join (outdir a) ''extracted''))")
    case (Some err)
    then show ?thesis using None
      by (simp add: main_def main_prog_def Let_def and_then_def emit_def)
  next
    case n2: None
    then show ?thesis using None assms
      by (simp add: main_def main_prog_def Let_def and_then_def emit_def throw_def)
  qed
qed

text \<open>
  Claim C8. When no image is discovered in the extracted tree, the run ends with an
  exception, hence with exit status 1, and none of its effects saves an image or writes a
  document; when the output directory could be made and the archive extracted, the
  exception is \<open>SystemExit\<close> with the message "No images found in ZIP", and the run has
  done nothing else.
\<close>

theorem no_images_fatal:
  assumes "collect_images (walk W (path_join (outdir a) ''extracted'')) = []"
  shows "exit_status (snd (main L W a)) = 1 \<and>
         filter is_output (fst (main L W a)) = [] \<and>
         (io_fail W (MakeDirs (outdir a)) = None \<and>
          io_fail W (ExtractAll (zip_path a) (path_join (outdir a) ''extracted'')) = None \<longrightarrow>
            main L W a =
              ([MakeDirs (outdir a), ExtractAll (zip_path a) (path_join (outdir a) ''extracted'')],
               Inl (SystemExit ''No images found in ZIP'')) \<and>
            exit_message (snd (main L W a)) = Some ''No images found in ZIP'')"
proof -
  from snd_main_prog_start [OF assms, of L] obtain e where
    e: "snd (main L W a) = Inl e" and o: "filter is_output (fst (main L W a)) = []" by blast
  have s: "exit_status (snd (main L W a)) = 1" using e by (simp add: exit_status_def)
  have m: "main L W a =
              ([MakeDirs (outdir a), ExtractAll (zip_path a) (path_join (outdir a) ''extracted'')],
               Inl (SystemExit ''No images found in ZIP''))"
    if "io_fail W (MakeDirs (outdir a)) = None"
      and "io_fail W (ExtractAll (zip_path a) (path_join (outdir a) ''extracted'')) = None"
    using that assms
    by (simp add: main_def main_prog_def Let_def and_then_def emit_def throw_def)
  show ?thesis using s o m by (simp add: exit_message_def)
qed

theorem no_images_fatal_witness:
  "collect_images
     (walk (example_world [(''output/landmark/extracted'', [''notes.txt'', ''._x.jpg''])])
        (path_join (outdir example_args) ''extracted'')) = [] \<and>
   main example_lib (example_world [(''output/landmark/extracted'', [''notes.txt'', ''._x.jpg''])])
        example_args =
     ([MakeDirs ''output/landmark'', ExtractAll ''input/photos.zip'' ''output/landmark/extracted''],
      Inl (SystemExit ''No images found in ZIP'')) \<and>
   exit_status (snd (main example_lib
        (example_world [(''output/landmark/extracted'', [''notes.txt'', ''._x.jpg''])]) example_args)) = 1"
proof -
  let ?W = "example_world [(''output/landmark/extracted'', [''notes.txt'', ''._x.jpg''])]"
  have i1: "\<not> is_image_name ''notes.txt''" by code_simp
  have i2: "\<not> is_image_name ''._x.jpg''" by code_simp
  have h: "collect_images (walk ?W (path_join (outdir example_args) ''extracted'')) = []"
    by (simp add: example_world_def collect_images_def i1 i2)
  have f1: "io_fail ?W (MakeDirs (outdir example_args)) = None"
    by (simp add: example_world_def)
  have f2: "io_fail ?W (ExtractAll (zip_path example_args) (path_join (outdir example_args) ''extracted'')) = None"
    by (simp add: example_world_def)
  have o: "outdir example_args = ''output/landmark''" by (simp add: example_args_def)
  have z: "zip_path example_args = ''input/photos.zip''" by (simp add: example_args_def)
  have j: "path_join ''output/landmark'' ''extracted'' = ''output/landmark/extracted''" by code_simp
  show ?thesis
    using h f1 f2 no_images_fatal [OF h, of example_lib]
    unfolding o z j by (simp add: exit_status_def)
qed

lemma process_image_order_file [simp]:
  "process_image L W (a\<lparr>order_file := x\<rparr>) = process_image L W a"
  by (simp add: process_image_def fun_eq_iff)

lemma process_image_captions_csv [simp]:
  "process_image L W (a\<lparr>captions_csv := x\<rparr>) = process_image L W a"
  by (simp add: process_image_def fun_eq_iff)

lemma process_images_order_file [simp]:
  "process_images L W (a\<lparr>order_file := x\<rparr>) caps logo i srcs = process_images L W a caps logo i srcs"
  by (induction srcs arbitrary: i) simp_all

lemma process_images_captions_csv [simp]:
  "process_images L W (a\<lparr>captions_csv := x\<rparr>) caps logo i srcs = process_images L W a caps logo i srcs"
  by (induction srcs arbitrary: i) simp_all

lemma render_documents_order_file [simp]:
  "render_documents L W (a\<lparr>order_file := x\<rparr>) = render_documents L W a"
  by (simp add: render_documents_def fun_eq_iff)

lemma render_documents_captions_csv [simp]:
  "render_documents L W (a\<lparr>captions_csv := x\<rparr>) = render_documents L W a"
  by (simp add: render_documents_def fun_eq_iff)

lemma choose_order_missing:
  "\<not> path_exists W p \<Longrightarrow> choose_order W (a\<lparr>order_file := Some p\<rparr>) srcs = ret (default_order srcs)"
  by (simp add: choose_order_def)

lemma choose_order_none:
  "choose_order W (a\<lparr>order_file := None\<rparr>) srcs = ret (default_order srcs)"
  by (simp add: choose_order_def)

lemma choose_order_captions_csv [simp]:
  "choose_order W (a\<lparr>captions_csv := x\<rparr>) = choose_order W a"
  by (simp add: choose_order_def fun_eq_iff)

lemma choose_captions_order_file [simp]:
  "choose_captions W (a\<lparr>order_file := x\<rparr>) = choose_captions W a"
  by (simp add: choose_captions_def)

lemma choose_captions_missing:
  "\<not> path_exists W q \<Longrightarrow> choose_captions W (a\<lparr>captions_csv := Some q\<rparr>) = ret Map.empty"
  by (simp add: choose_captions_def)

lemma choose_captions_none:
  "choose_captions W (a\<lparr>captions_csv := None\<rparr>) = ret Map.empty"
  by (simp add: choose_captions_def)

lemma main_order_file_missing:
  assumes "\<not> path_exists W p"
  shows "main L W (a\<lparr>order_file := Some p\<rparr>) = main L W (a\<lparr>order_file := None\<rparr>)"
  by (simp add: main_def main_prog_def Let_def choose_order_missing [OF assms] choose_order_none)

lemma main_captions_csv_missing:
  assumes "\<not> path_exists W q"
  shows "main L W (a\<lparr>captions_csv := Some q\<rparr>) = main L W (a\<lparr>captions_csv := None\<rparr>)"
  by (simp add: main_def main_prog_def Let_def choose_captions_missing [OF assms] choose_captions_none)

text \<open>
  A run completes when no effect fails, at least one image is discovered, no option file is
  given, and the logo and every discovered image open and pass the watermark, the resize and
  the thumbnail.
\<close>

lemma process_image_ok:
  assumes "\<And>e. io_fail W e = None" and "open_image W src = Inr im0"
    and "apply_logo_watermark L (exif_transpose im0) logo = Inr wm"
    and "resize_for_web wm (max_web_width a) = Inr web"
    and "thumbnail L wm (600, 400) = Inr t"
  shows "\<exists>log' r. process_image L W a caps logo i src log = (log', Inr r)"
  by (simp add: process_image_def Let_def and_then_def lift_def emit_def ret_def assms)

lemma process_images_ok:
  assumes "\<And>e. io_fail W e = None" and "\<And>src. src \<in> set srcs \<Longrightarrow> open_image W src = Inr im0"
    and "apply_logo_watermark L (exif_transpose im0) logo = Inr wm"
    and "resize_for_web wm (max_web_width a) = Inr web"
    and "thumbnail L wm (600, 400) = Inr t"
  shows "\<exists>log' rows. process_images L W a caps logo i srcs log = (log', Inr rows)"
  using assms(2)
proof (induction srcs arbitrary: i log)
  case Nil
  then show ?case by (simp add: ret_def)
next
  case (Cons src rest)
  have "open_image W src = Inr im0" using Cons.prems by simp
  from process_image_ok [OF assms(1) this assms(3,4,5), of caps i log]
  obtain log1 r where p: "process_image L W a caps logo i src log = (log1, Inr r)" by blast
  have "\<And>s. s \<in> set rest \<Longrightarrow> open_image W s = Inr im0" using Cons.prems by simp
  from Cons.IH [OF this, of "Suc i" log1]
  obtain log2 rows where q: "process_images L W a caps logo (Suc i) rest log1 = (log2, Inr rows)"
    by blast
  show ?case using p q by (simp add: and_then_def ret_def)
qed

lemma render_documents_ok:
  assumes "\<And>e. io_fail W e = None"
  shows "\<exists>log'. render_documents L W a rows log = (log', Inr ())"
  by (simp add: render_documents_def Let_def and_then_def emit_def get_log_def assms)

lemma main_completes:
  assumes "\<And>e. io_fail W e = None"
    and "collect_images (walk W (path_join (outdir a) ''extracted'')) = srcs" and "srcs \<noteq> []"
    and "order_file a = None" and "captions_csv a = None"
    and "open_image W (logo_path a) = Inr logo"
    and "\<And>src. src \<in> set srcs \<Longrightarrow> open_image W src = Inr im0"
    and "apply_logo_watermark L (exif_transpose im0) logo = Inr wm"
    and "resize_for_web wm (max_web_width a) = Inr web"
    and "thumbnail L wm (600, 400) = Inr t"
  shows "snd (main L W a) = Inr ()"
proof -
  let ?log = "[MakeDirs (outdir a), ExtractAll (zip_path a) (path_join (outdir a) ''extracted''),
     MakeDirs (path_join (outdir a) ''photos_full_res_watermarked''),
     MakeDirs (path_join (outdir a) ''photos_web_optimized_watermarked''),
     MakeDirs (path_join (outdir a) ''thumbnails'')]"
  have h: "\<And>src. src \<in> set (default_order srcs) \<Longrightarrow> open_image W src = Inr im0"
    using assms(7) by (simp add: default_order_def)
  have "\<exists>log' rows. process_images L W a Map.empty logo 1 (default_order srcs) ?log = (log', Inr rows)"
    by (rule process_images_ok [OF assms(1) h assms(8,9,10)])
  then obtain log1 rows where
    p: "process_images L W a Map.empty logo 1 (default_order srcs) ?log = (log1, Inr rows)"
    by blast
  from render_documents_ok [OF assms(1), of L a rows log1]
  obtain log2 where r: "render_documents L W a rows log1 = (log2, Inr ())" by blast
  show ?thesis
    using assms(2,3,4,5,6) p r
    by (simp add: main_def main_prog_def Let_def and_then_def emit_def assms(1) throw_def
        choose_order_def choose_captions_def ret_def lift_def)
qed

text \<open>
  Claim C10. When the path given as order file does not exist, the run is the run without
  an order file: the default ordering is used and nothing else differs, in effects or in
  result. When the path given as caption file does not exist, the run is the run without a
  caption file: the caption table is empty, so every caption is derived from the file name.
\<close>

theorem missing_option_file_ignored:
  "(\<not> path_exists W p \<longrightarrow>
      main L W (a\<lparr>order_file := Some p\<rparr>) = main L W (a\<lparr>order_file := None\<rparr>) \<and>
      choose_order W (a\<lparr>order_file := Some p\<rparr>) srcs = ret (default_order srcs)) \<and>
   (\<not> path_exists W q \<longrightarrow>
      main L W (a\<lparr>captions_csv := Some q\<rparr>) = main L W (a\<lparr>captions_csv := None\<rparr>) \<and>
      choose_captions W (a\<lparr>captions_csv := Some q\<rparr>) = ret Map.empty) \<and>
   choose_order W (a\<lparr>order_file := None\<rparr>) srcs = ret (default_order srcs) \<and>
   choose_captions W (a\<lparr>captions_csv := None\<rparr>) = ret Map.empty \<and>
   resolve_caption Map.empty base = slug_to_caption base"
  using main_order_file_missing [of W p L a] main_captions_csv_missing [of W q L a]
    choose_order_missing [of W p a srcs] choose_captions_missing [of W q a]
    choose_order_none [of W a srcs] choose_captions_none [of W a]
  by (simp add: resolve_caption_def)

theorem missing_option_file_ignored_witness:
  "collect_images
     (walk (example_world [(''output/landmark/extracted'', [''Kitchen.jpg'', ''Exterior_Front.jpg''])])
        (path_join (outdir example_args) ''extracted'')) =
     [''output/landmark/extracted/Exterior_Front.jpg'', ''output/landmark/extracted/Kitchen.jpg''] \<and>
   \<not> path_exists
       (example_world [(''output/landmark/extracted'', [''Kitchen.jpg'', ''Exterior_Front.jpg''])])
       ''order.txt'' \<and>
   main example_lib
       (example_world [(''output/landmark/extracted'', [''Kitchen.jpg'', ''Exterior_Front.jpg''])])
       (example_args\<lparr>order_file := Some ''order.txt''\<rparr>) =
     main example_lib
       (example_world [(''output/landmark/extracted'', [''Kitchen.jpg'', ''Exterior_Front.jpg''])])
       (example_args\<lparr>order_file := None\<rparr>) \<and>
   choose_order
       (example_world [(''output/landmark/extracted'', [''Kitchen.jpg'', ''Exterior_Front.jpg''])])
       (example_args\<lparr>order_file := Some ''order.txt''\<rparr>)
       [''output/landmark/extracted/Exterior_Front.jpg'', ''output/landmark/extracted/Kitchen.jpg''] =
     ret (default_order
       [''output/landmark/extracted/Exterior_Front.jpg'', ''output/landmark/extracted/Kitchen.jpg'']) \<and>
   \<not> path_exists
       (example_world [(''output/landmark/extracted'', [''Kitchen.jpg'', ''Exterior_Front.jpg''])])
       ''captions.csv'' \<and>
   main example_lib
       (example_world [(''output/landmark/extracted'', [''Kitchen.jpg'', ''Exterior_Front.jpg''])])
       (example_args\<lparr>captions_csv := Some ''captions.csv''\<rparr>) =
     main example_lib
       (example_world [(''output/landmark/extracted'', [''Kitchen.jpg'', ''Exterior_Front.jpg''])])
       (example_args\<lparr>captions_csv := None\<rparr>) \<and>
   choose_captions
       (example_world [(''output/landmark/extracted'', [''Kitchen.jpg'', ''Exterior_Front.jpg''])])
       (example_args\<lparr>captions_csv := Some ''captions.csv''\<rparr>) = ret Map.empty \<and>
   snd (main example_lib
       (example_world [(''output/landmark/extracted'', [''Kitchen.jpg'', ''Exterior_Front.jpg''])])
       (example_args\<lparr>order_file := Some ''order.txt''\<rparr>)) = Inr () \<and>
   snd (main example_lib
       (example_world [(''output/landmark/extracted'', [''Kitchen.jpg'', ''Exterior_Front.jpg''])])
       (example_args\<lparr>captions_csv := Some ''captions.csv''\<rparr>)) = Inr ()"
proof -
  let ?W = "example_world [(''output/landmark/extracted'', [''Kitchen.jpg'', ''Exterior_Front.jpg''])]"
  let ?srcs = "[''output/landmark/extracted/Exterior_Front.jpg'', ''output/landmark/extracted/Kitchen.jpg'']"
  have c: "collect_images [(''output/landmark/extracted'', [''Kitchen.jpg'', ''Exterior_Front.jpg''])] = ?srcs"
    by code_simp
  have w: "collect_images (walk ?W (path_join (outdir example_args) ''extracted'')) = ?srcs"
    using c by (simp add: example_world_def)
  have h1: "\<not> path_exists ?W ''order.txt''" by (simp add: example_world_def)
  have h2: "\<not> path_exists ?W ''captions.csv''" by (simp add: example_world_def)
  note t = missing_option_file_ignored [of ?W "''order.txt''" example_lib example_args ?srcs
      "''captions.csv''" "[]"]
  have e1: "main example_lib ?W (example_args\<lparr>order_file := Some ''order.txt''\<rparr>) =
      main example_lib ?W (example_args\<lparr>order_file := None\<rparr>)"
    using h1 t by blast
  have o1: "choose_order ?W (example_args\<lparr>order_file := Some ''order.txt''\<rparr>) ?srcs =
      ret (default_order ?srcs)"
    using h1 t by blast
  have e2: "main example_lib ?W (example_args\<lparr>captions_csv := Some ''captions.csv''\<rparr>) =
      main example_lib ?W (example_args\<lparr>captions_csv := None\<rparr>)"
    using h2 t by blast
  have o2: "choose_captions ?W (example_args\<lparr>captions_csv := Some ''captions.csv''\<rparr>) = ret Map.empty"
    using h2 t by blast
  let ?im = "\<lparr>width = 5000, height = 3000, mode = ''RGB'', orientation = 1\<rparr>"
  let ?wm = "\<lparr>width = 5000, height = 3000, mode = ''RGB'', orientation = 0\<rparr>"
  have f: "\<And>e. io_fail ?W e = None" by (simp add: example_world_def)
  have l: "open_image ?W (logo_path example_args) = Inr ?im"
    by (simp add: example_world_def example_args_def)
  have i: "\<And>src. src \<in> set ?srcs \<Longrightarrow> open_image ?W src = Inr ?im"
    by (auto simp add: example_world_def)
  have a: "apply_logo_watermark example_lib (exif_transpose ?im) ?im = Inr ?wm" by code_simp
  have r: "resize_for_web ?wm (max_web_width example_args) =
      Inr \<lparr>width = 2560, height = 1536, mode = ''RGB'', orientation = 0\<rparr>"
    by code_simp
  have th: "thumbnail example_lib ?wm (600, 400) =
      Inr \<lparr>width = 600, height = 400, mode = ''RGB'', orientation = 0\<rparr>"
    by (simp add: example_lib_def)
  have n: "?srcs \<noteq> []" by simp
  have o: "order_file example_args = None" "captions_csv example_args = None"
    by (simp_all add: example_args_def)
  have m: "snd (main example_lib ?W example_args) = Inr ()"
    by (rule main_completes [OF f w n o l i a r th])
  have x1: "example_args\<lparr>order_file := None\<rparr> = example_args"
    by (simp add: example_args_def)
  have x2: "example_args\<lparr>captions_csv := None\<rparr> = example_args"
    by (simp add: example_args_def)
  have m1: "snd (main example_lib ?W (example_args\<lparr>order_file := Some ''order.txt''\<rparr>)) = Inr ()"
    using e1 m by (simp only: x1)
  have m2: "snd (main example_lib ?W (example_args\<lparr>captions_csv := Some ''captions.csv''\<rparr>)) = Inr ()"
    using e2 m by (simp only: x2)
  from w h1 e1 o1 h2 e2 o2 m1 m2 show ?thesis by blast
qed

subsection \<open>Embedding\<close>

lemma embed_b64_cases:
  "(\<exists>s. embed_b64_try L opener path w = Inr s \<and> embed_b64 L opener path w = s) \<or>
   (\<exists>e. embed_b64_try L opener path w = Inl e \<and> embed_b64 L opener path w = [])"
  by (cases "embed_b64_try L opener path w") (simp_all add: embed_b64_def)

lemma embed_b64_success:
  "opener path = Inr im \<Longrightarrow> thumbnail L im (w, w) = Inr t \<Longrightarrow> save_jpeg L t 80 = Inr buf \<Longrightarrow>
   embed_b64 L opener path w = b64encode buf"
  by (simp add: embed_b64_def embed_b64_try_def)

lemma embed_b64_try_Inr:
  "embed_b64_try L opener path w = Inr s \<Longrightarrow>
   \<exists>im t buf. opener path = Inr im \<and> thumbnail L im (w, w) = Inr t \<and> save_jpeg L t 80 = Inr buf \<and>
     s = b64encode buf"
  by (auto simp: embed_b64_try_def split: sum.splits)

text \<open>
  Claim C9. \<open>embed_b64\<close> always returns a text: the base-64 encoding of the JPEG bytes of
  the opened image shrunk into the bounding square, or the empty text when opening,
  shrinking or encoding fails. When it returns the empty text for a thumbnail, the table
  row and the list item have no image tag in their image cell, and when it does so for the
  logo, the header has no logo tag.
\<close>

theorem embed_b64_best_effort:
  \<open>((\<exists>im t buf. opener path = Inr im \<and> thumbnail L im (w, w) = Inr t \<and>
        save_jpeg L t 80 = Inr buf \<and> embed_b64 L opener path w = b64encode buf) \<or>
    ((\<exists>e. embed_b64_try L opener path w = Inl e) \<and> embed_b64 L opener path w = [])) \<and>
   (embed_b64 L opener thumb 150 = [] \<longrightarrow>
      html_row L opener (i, thumb, room, caption) =
        ''<tr><td>'' @ str_nat i @ ''</td><td></td><td>'' @ room @ ''</td><td>'' @ caption @
        ''</td></tr>'' \<and>
      list_item L opener (i, thumb, room, caption) =
        ''<li><div style='display:flex;gap:10px;align-items:flex-start'><div></div><div><strong>'' @
        str_nat i @ ''. '' @ room @ ''</strong><br>'' @ caption @ ''</div></div></li>'') \<and>
   (embed_b64 L opener logo 200 = [] \<longrightarrow> header_logo_tag L opener logo = [])\<close>
proof -
  have a: \<open>(\<exists>im t buf. opener path = Inr im \<and> thumbnail L im (w, w) = Inr t \<and>
        save_jpeg L t 80 = Inr buf \<and> embed_b64 L opener path w = b64encode buf) \<or>
    ((\<exists>e. embed_b64_try L opener path w = Inl e) \<and> embed_b64 L opener path w = [])\<close>
    using embed_b64_cases [of L opener path w] embed_b64_try_Inr [of L opener path w]
    by (metis embed_b64_success)
  have b: \<open>html_row L opener (i, thumb, room, caption) =
        ''<tr><td>'' @ str_nat i @ ''</td><td></td><td>'' @ room @ ''</td><td>'' @ caption @
        ''</td></tr>''\<close> if "embed_b64 L opener thumb 150 = []"
    using that by (simp add: html_row_def)
  have c: \<open>list_item L opener (i, thumb, room, caption) =
        ''<li><div style='display:flex;gap:10px;align-items:flex-start'><div></div><div><strong>'' @
        str_nat i @ ''. '' @ room @ ''</strong><br>'' @ caption @ ''</div></div></li>''\<close>
    if "embed_b64 L opener thumb 150 = []"
    using that by (simp add: list_item_def)
  have d: "header_logo_tag L opener logo = []" if "embed_b64 L opener logo 200 = []"
    using that by (simp add: header_logo_tag_def)
  from a b c d show ?thesis by blast
qed

theorem embed_b64_best_effort_witness:
  \<open>embed_b64 example_lib (open_image (example_world [])) ''notes.txt'' 150 = [] \<and>
   html_row example_lib (open_image (example_world [])) (1, ''notes.txt'', ''Kitchen'', ''Kitchen.'') =
     ''<tr><td>1</td><td></td><td>Kitchen</td><td>Kitchen.</td></tr>'' \<and>
   list_item example_lib (open_image (example_world [])) (1, ''notes.txt'', ''Kitchen'', ''Kitchen.'') =
     ''<li><div style='display:flex;gap:10px;align-items:flex-start'><div></div><div><strong>1. Kitchen</strong><br>Kitchen.</div></div></li>'' \<and>
   embed_b64 example_lib (open_image (example_world [])) ''notes.txt'' 200 = [] \<and>
   header_logo_tag example_lib (open_image (example_world [])) ''notes.txt'' = [] \<and>
   embed_b64 example_lib (open_image (example_world [])) ''thumb_01.jpg'' 150 = ''/9j/2Q==''\<close>
proof -
  let ?o = "open_image (example_world [])"
  have h: "embed_b64 example_lib ?o ''notes.txt'' 150 = []"
    by (simp add: embed_b64_def embed_b64_try_def example_world_def)
  have g: "embed_b64 example_lib ?o ''notes.txt'' 200 = []"
    by (simp add: embed_b64_def embed_b64_try_def example_world_def)
  have n: "str_nat 1 = ''1''" by code_simp
  have b: "b64encode [0xFF, 0xD8, 0xFF, 0xD9] = ''/9j/2Q==''" by code_simp
  have s: "embed_b64 example_lib ?o ''thumb_01.jpg'' 150 = ''/9j/2Q==''"
    by (simp add: embed_b64_def embed_b64_try_def example_world_def example_lib_def b
        del: b64encode.simps)
  note t = embed_b64_best_effort [of ?o "''thumb_01.jpg''" example_lib 150 "''notes.txt''" 1
      "''Kitchen''" "''Kitchen.''" "''notes.txt''"]
  have r: \<open>html_row example_lib ?o (1, ''notes.txt'', ''Kitchen'', ''Kitchen.'') =
     ''<tr><td>'' @ str_nat 1 @ ''</td><td></td><td>'' @ ''Kitchen'' @ ''</td><td>'' @ ''Kitchen.'' @
        ''</td></tr>''\<close>
    using h t by blast
  have l: \<open>list_item example_lib ?o (1, ''notes.txt'', ''Kitchen'', ''Kitchen.'') =
        ''<li><div style='display:flex;gap:10px;align-items:flex-start'><div></div><div><strong>'' @
        str_nat 1 @ ''. '' @ ''Kitchen'' @ ''</strong><br>'' @ ''Kitchen.'' @ ''</div></div></li>''\<close>
    using h t by blast
  have k: "header_logo_tag example_lib ?o ''notes.txt'' = []"
    using g t by blast
  show ?thesis using h g s k r l unfolding n by simp
qed

end
